theory Spec2Isabelle
  imports Complex_Main "HOL-Library.Word" "HOL-Library.Multiset"
begin

section \<open>Decimal text\<close>

text \<open>
  \<^verbatim>\<open>TString::Format("%d", i)\<close>, \<^verbatim>\<open>std::to_string(i)\<close> and \<^verbatim>\<open>ostream << int\<close> all write a
  signed integer in decimal, without padding: a minus sign for a negative value, then the
  digits of the magnitude, most significant first.
\<close>

definition digit :: "nat \<Rightarrow> char" where
  "digit d = ''0123456789'' ! d"

fun digits :: "nat \<Rightarrow> string" where
  "digits n = (if n < 10 then [digit n] else digits (n div 10) @ [digit (n mod 10)])"

declare digits.simps [simp del]

definition to_string :: "int \<Rightarrow> string" where
  "to_string i = (if i < 0 then CHR ''-'' # digits (nat (- i)) else digits (nat i))"

section \<open>Data model\<close>

text \<open>
  A \<^verbatim>\<open>Float_t\<close> is an IEEE-754 binary32 value, kept as its 32-bit pattern. The mergers
  only copy such values; the export reads their sign, exponent and fraction.
\<close>

type_synonym Float_t = "32 word"

text \<open>
  One entry of the \<^verbatim>\<open>TNtuple\<close> declared with the variable list
  \<^verbatim>\<open>eventNum:dijetMass:leadingJetPt:subleadingJetPt:deltaPhi:deltaEta:x1:x2:parton1Id:parton2Id\<close>
  (pythia.C line 79, mergetuple.C line 8): ten branches of type \<^verbatim>\<open>Float_t\<close>, addressed by name.
  Every table of the model has this variable list; a table written with another one is
  outside it.
\<close>

record row =
  eventNum :: Float_t
  dijetMass :: Float_t
  leadingJetPt :: Float_t
  subleadingJetPt :: Float_t
  deltaPhi :: Float_t
  deltaEta :: Float_t
  x1 :: Float_t
  x2 :: Float_t
  parton1Id :: Float_t
  parton2Id :: Float_t

text \<open>
  A histogram, as far as the merge reads and writes it: the bin edges of its axes (one
  list per axis), one accumulated value per cell, and the entry count. The numeric type
  \<open>'a\<close> stands for the floating-point type of ROOT; only its addition and absolute
  value are used, and nothing is assumed about them unless a statement says so. The
  type \<open>Double_t\<close> below is the one of the histograms pythia.C books; the worked
  instances that only count use integers.
\<close>

record 'a hist =
  axes :: "'a list list"
  cells :: "'a list"
  fEntries :: 'a

text \<open>
  An object stored in a ROOT file: a ten-branch ntuple, a histogram together with the
  name of its class (\<^verbatim>\<open>TH1F\<close>, \<^verbatim>\<open>TH1D\<close>, \<^verbatim>\<open>TH2D\<close>, \<^verbatim>\<open>TH2F\<close>, ...), or an object of any
  other class, of which only the class name matters here.
\<close>

datatype 'a TObject = TNtuple "row list" | TH1 string "'a hist" | TOther string

record 'a TKey =
  GetName :: string
  ReadObj :: "'a TObject"

fun GetClassName :: "'a TKey \<Rightarrow> string" where
  "GetClassName k =
     (case ReadObj k of TNtuple _ \<Rightarrow> ''TNtuple'' | TH1 c _ \<Rightarrow> c | TOther c \<Rightarrow> c)"

declare GetClassName.simps [simp del]

text \<open>
  A file is either a ROOT file, holding its keys in the order \<^verbatim>\<open>GetListOfKeys\<close> gives
  them, or plain text. The world of a macro run is the directory it runs in and the lines
  it has written to \<^verbatim>\<open>std::cerr\<close> and \<^verbatim>\<open>cout\<close>.

  pythia.C writes every object once, so the keys of a run's file are uniquely named. ROOT
  keeps several cycles of one name as one object in memory and orders their keys by
  cycle; the model has neither, and the statements about merged histograms assume
  uniquely named keys where it matters.
\<close>

datatype 'a content = RootFile "'a TKey list" | TextFile string

record 'a world =
  files :: "string \<rightharpoonup> 'a content"
  cerr :: "string list"
  cout :: "string list"

text \<open>
  What stops a run: a member call through a null pointer, a C-style cast of an object to
  a class it does not have, element 0 of an empty vector, and \<^verbatim>\<open>i++\<close> on an \<^verbatim>\<open>int\<close> that holds
  the largest value. C++ leaves each of them undefined; the model reports the run as
  stopped there, with the world as it then is, and says nothing more about it.
\<close>

datatype error = NullDereference | BadCast | EmptyVector | SignedOverflow

text \<open>
  The bounds of a C++ \<^verbatim>\<open>int\<close>. The counters of the two mergers are \<^verbatim>\<open>int\<close>s: they are kept as
  integers, and the increment that would leave the range is a \<open>SignedOverflow\<close>.
\<close>

definition INT_MAX :: int where
  "INT_MAX = 2147483647"

definition INT_MIN :: int where
  "INT_MIN = - 2147483648"

type_synonym ('a, 'r) result = "(error \<times> 'a world) + 'r"

section \<open>The ROOT calls the macros make\<close>

text \<open>
  Opening for reading gives the keys of a ROOT file. \<^verbatim>\<open>TFile::Open\<close> returns a null pointer
  and \<^verbatim>\<open>new TFile(name, "READ")\<close> a zombie when the file is absent or not a ROOT file; both
  are \<open>None\<close> here.
\<close>

definition TFile_Open :: "'a world \<Rightarrow> string \<Rightarrow> 'a TKey list option" where
  "TFile_Open w name =
     (case files w name of Some (RootFile ks) \<Rightarrow> Some ks | _ \<Rightarrow> None)"

text \<open>\<^verbatim>\<open>Get(name)\<close>: the object of the first key of that name, or a null pointer.\<close>

definition Get :: "'a TKey list \<Rightarrow> string \<Rightarrow> 'a TObject option" where
  "Get ks name = map_option ReadObj (find (\<lambda>k. GetName k = name) ks)"

text \<open>\<^verbatim>\<open>new TFile(name, "RECREATE")\<close>: a new, empty ROOT file replaces whatever was there.\<close>

definition RECREATE :: "string \<Rightarrow> 'a world \<Rightarrow> 'a world" where
  "RECREATE name w = w\<lparr>files := (files w)(name \<mapsto> RootFile [])\<rparr>"

text \<open>\<^verbatim>\<open>obj->Write()\<close> with the named file as current directory: one more key.\<close>

definition Write :: "string \<Rightarrow> 'a TKey \<Rightarrow> 'a world \<Rightarrow> 'a world" where
  "Write name k w =
     (case files w name of
        Some (RootFile ks) \<Rightarrow> w\<lparr>files := (files w)(name \<mapsto> RootFile (ks @ [k]))\<rparr>
      | _ \<Rightarrow> w)"

section \<open>mergetuple.C\<close>

text \<open>
  \<^verbatim>\<open>mergedNtuple->Fill(...)\<close> takes the ten values by position, in the order of the variable
  list of \<^verbatim>\<open>mergedNtuple\<close>, and appends one entry.
\<close>

definition Fill ::
  "Float_t \<Rightarrow> Float_t \<Rightarrow> Float_t \<Rightarrow> Float_t \<Rightarrow> Float_t \<Rightarrow> Float_t \<Rightarrow> Float_t \<Rightarrow>
   Float_t \<Rightarrow> Float_t \<Rightarrow> Float_t \<Rightarrow> row list \<Rightarrow> row list" where
  "Fill v0 v1 v2 v3 v4 v5 v6 v7 v8 v9 t =
     t @ [\<lparr>eventNum = v0, dijetMass = v1, leadingJetPt = v2, subleadingJetPt = v3,
           deltaPhi = v4, deltaEta = v5, x1 = v6, x2 = v7, parton1Id = v8, parton2Id = v9\<rparr>]"

text \<open>
  Lines 32 to 36: \<^verbatim>\<open>GetEntry(j)\<close> loads entry \<open>j\<close> into the ten variables bound by name, and
  \<^verbatim>\<open>Fill\<close> appends them to the merged ntuple.
\<close>

fun fill_entries :: "row list \<Rightarrow> row list \<Rightarrow> row list" where
  "fill_entries [] mergedNtuple = mergedNtuple"
| "fill_entries (e # es) mergedNtuple =
     fill_entries es
       (Fill (eventNum e) (dijetMass e) (leadingJetPt e) (subleadingJetPt e) (deltaPhi e)
          (deltaEta e) (x1 e) (x2 e) (parton1Id e) (parton2Id e) mergedNtuple)"

definition tupleFileName :: "int \<Rightarrow> string" where
  "tupleFileName i = ''AnalysisResults'' @ to_string i @ ''.root''"

text \<open>
  Lines 14 to 39, from the counter value \<open>i\<close> on. Line 17 is not checked: the calls of
  line 20 go through a null pointer when the file or the table is missing, and through a
  pointer of the wrong class when \<^verbatim>\<open>dijetNtuple\<close> names something else. After the body the
  counter is incremented, which overflows when it holds \<open>INT_MAX\<close>; that happens exactly
  when \<open>end\<close> is \<open>INT_MAX\<close>, since the loop is left only by \<open>i > end\<close>.
\<close>

function mergetuple_loop ::
  "int \<Rightarrow> int \<Rightarrow> 'a world \<Rightarrow> row list \<Rightarrow> ('a, row list) result" where
  "mergetuple_loop i end w mergedNtuple =
     (if i \<le> end
      then
        (case TFile_Open w (tupleFileName i) of
           None \<Rightarrow> Inl (NullDereference, w)
         | Some file \<Rightarrow>
             (case Get file ''dijetNtuple'' of
                None \<Rightarrow> Inl (NullDereference, w)
              | Some (TNtuple dijetNtuple) \<Rightarrow>
                  if INT_MAX \<le> i then Inl (SignedOverflow, w)
                  else mergetuple_loop (i + 1) end w (fill_entries dijetNtuple mergedNtuple)
              | Some _ \<Rightarrow> Inl (BadCast, w)))
      else Inr mergedNtuple)"
  by pat_completeness auto

termination
  by (relation "measure (\<lambda>(i, end, w, mergedNtuple). nat (end + 1 - i))") auto

declare mergetuple_loop.simps [simp del]

text \<open>
  The macro, with the two numbers of lines 3 and 4 as arguments: the comment there calls
  them user-defined, and the macro is edited to change them. They are C++ \<^verbatim>\<open>int\<close>s, so
  they lie between \<open>INT_MIN\<close> and \<open>INT_MAX\<close>.
\<close>

definition mergetuple_range :: "int \<Rightarrow> int \<Rightarrow> 'a world \<Rightarrow> ('a, 'a world) result" where
  "mergetuple_range start end w =
     (let w1 = RECREATE ''merged_tuple.root'' w in
      case mergetuple_loop start end w1 [] of
        Inl e \<Rightarrow> Inl e
      | Inr mergedNtuple \<Rightarrow>
          Inr (Write ''merged_tuple.root''
                 \<lparr>GetName = ''mergedNtuple'', ReadObj = TNtuple mergedNtuple\<rparr> w1))"

definition mergetuple :: "'a world \<Rightarrow> ('a, 'a world) result" where
  "mergetuple = mergetuple_range 0 99"

section \<open>mergemacro.C\<close>

text \<open>
  \<^verbatim>\<open>mergedHist->Add(histToAdd)\<close>. ROOT compares the binning of the two histograms, not their
  classes. When the binning is the same, every cell (under- and overflow included)
  receives the other histogram's cell, and the entry count becomes
  \<^verbatim>\<open>TMath::Abs(GetEntries() + h1->GetEntries())\<close>. When it differs, what is left in
  \<^verbatim>\<open>mergedHist\<close> depends on the version of ROOT (one gives up, another rebins); the model
  takes it from the parameter \<open>inconsistent\<close>. The macro drops the value \<^verbatim>\<open>Add\<close> returns.

  A histogram has one cell per bin of its axes and two more along each axis, so
  histograms of one binning have as many cells; \<open>consistent\<close> says so for records that
  are not built that way.
\<close>

definition consistent :: "'a hist \<Rightarrow> 'a hist \<Rightarrow> bool" where
  "consistent h h1 \<longleftrightarrow> axes h = axes h1 \<and> length (cells h) = length (cells h1)"

definition Add ::
  "('a hist \<Rightarrow> 'a hist \<Rightarrow> 'a hist) \<Rightarrow> 'a::{plus,abs} hist \<Rightarrow> 'a hist \<Rightarrow> 'a hist" where
  "Add inconsistent h h1 =
     (if consistent h h1
      then h\<lparr>cells := map2 (+) (cells h) (cells h1), fEntries := \<bar>fEntries h + fEntries h1\<bar>\<rparr>
      else inconsistent h h1)"

definition log_cerr :: "string \<Rightarrow> 'a world \<Rightarrow> 'a world" where
  "log_cerr line w = w\<lparr>cerr := cerr w @ [line]\<rparr>"

text \<open>
  Lines 44 to 65, over the file names still to visit (those after element 0). The casts
  of lines 53 to 57 both end in a \<^verbatim>\<open>TH1*\<close>, whatever the class of the histogram found, and
  \<^verbatim>\<open>Add\<close> is called through it; an object that is no histogram stops the run.
\<close>

fun add_files ::
  "('a hist \<Rightarrow> 'a hist \<Rightarrow> 'a hist) \<Rightarrow> string \<Rightarrow> string list \<Rightarrow> 'a world \<Rightarrow>
   'a::{plus,abs} hist \<Rightarrow> ('a, 'a world \<times> 'a hist) result" where
  "add_files inconsistent histName [] w mergedHist = Inr (w, mergedHist)"
| "add_files inconsistent histName (fileName # rest) w mergedHist =
     (case TFile_Open w fileName of
        None \<Rightarrow>
          add_files inconsistent histName rest
            (log_cerr (''Error opening file '' @ fileName) w) mergedHist
      | Some file \<Rightarrow>
          (case Get file histName of
             None \<Rightarrow>
               add_files inconsistent histName rest
                 (log_cerr (''Histogram '' @ histName @ '' not found in file '' @ fileName) w)
                 mergedHist
           | Some (TH1 c histToAdd) \<Rightarrow>
               add_files inconsistent histName rest w (Add inconsistent mergedHist histToAdd)
           | Some _ \<Rightarrow> Inl (BadCast, w)))"

text \<open>
  Lines 22 to 70, over the keys of the first file still to visit. \<open>firstFile\<close> is the key
  list of the first file, \<open>fileNames\<close> the whole vector, which has an element 0 once
  line 14 is passed. The histogram is written under its own class \<open>cls\<close>.
\<close>

fun merge_keys ::
  "('a hist \<Rightarrow> 'a hist \<Rightarrow> 'a hist) \<Rightarrow> 'a TKey list \<Rightarrow> string list \<Rightarrow> 'a TKey list \<Rightarrow>
   'a::{plus,abs} world \<Rightarrow> ('a, 'a world) result" where
  "merge_keys inconsistent firstFile fileNames [] w = Inr w"
| "merge_keys inconsistent firstFile fileNames (key # keys) w =
     (let className = GetClassName key in
      if className \<noteq> ''TH1F'' \<and> className \<noteq> ''TH1D'' \<and> className \<noteq> ''TH2D''
      then merge_keys inconsistent firstFile fileNames keys w
      else
        let histName = GetName key in
        case Get firstFile histName of
          None \<Rightarrow>
            merge_keys inconsistent firstFile fileNames keys
              (log_cerr (''Error loading histogram '' @ histName @ '' from file ''
                         @ hd fileNames) w)
        | Some (TH1 cls mergedHist) \<Rightarrow>
            (case add_files inconsistent histName (tl fileNames) w mergedHist of
               Inl e \<Rightarrow> Inl e
             | Inr (w', mergedHist') \<Rightarrow>
                 merge_keys inconsistent firstFile fileNames keys
                   (Write ''merged_AnalysisResults.root''
                      \<lparr>GetName = histName, ReadObj = TH1 cls mergedHist'\<rparr> w'))
        | Some _ \<Rightarrow> Inl (BadCast, w))"

text \<open>
  Lines 11 to 76 for a given vector \<open>fileNames\<close>. Line 14 reads element 0 whether or not
  there is one. Lines 15 to 17 report a first file that did not open and go on to line 20,
  which calls \<^verbatim>\<open>GetListOfKeys\<close> through the null pointer.
\<close>

definition mergemacro_files ::
  "('a hist \<Rightarrow> 'a hist \<Rightarrow> 'a hist) \<Rightarrow> string list \<Rightarrow> 'a::{plus,abs} world \<Rightarrow>
   ('a, 'a world) result" where
  "mergemacro_files inconsistent fileNames w =
     (let w1 = RECREATE ''merged_AnalysisResults.root'' w in
      case fileNames of
        [] \<Rightarrow> Inl (EmptyVector, w1)
      | fileName0 # _ \<Rightarrow>
          (case TFile_Open w1 fileName0 of
             None \<Rightarrow>
               Inl (NullDereference, log_cerr (''Error opening file '' @ fileName0) w1)
           | Some firstFile \<Rightarrow> merge_keys inconsistent firstFile fileNames firstFile w1))"

text \<open>
  Lines 3 to 8, from the counter value \<open>i\<close> on: one name is pushed for each value up to
  \<open>end\<close>, and the increment after the push for \<open>INT_MAX\<close> overflows.
\<close>

definition histFileName :: "int \<Rightarrow> string" where
  "histFileName i = ''AnalysisResults'' @ to_string i @ ''.root''"

function push_back_names :: "int \<Rightarrow> int \<Rightarrow> string list \<Rightarrow> error + string list" where
  "push_back_names i end fileNames =
     (if i \<le> end
      then
        if INT_MAX \<le> i then Inl SignedOverflow
        else push_back_names (i + 1) end (fileNames @ [histFileName i])
      else Inr fileNames)"
  by pat_completeness auto

termination
  by (relation "measure (\<lambda>(i, end, fileNames). nat (end + 1 - i))") auto

declare push_back_names.simps [simp del]

definition histFileNames :: "int \<Rightarrow> int \<Rightarrow> error + string list" where
  "histFileNames start end = push_back_names start end []"

text \<open>The macro, with the two numbers of lines 3 and 4 as arguments.\<close>

definition mergemacro_range ::
  "('a hist \<Rightarrow> 'a hist \<Rightarrow> 'a hist) \<Rightarrow> int \<Rightarrow> int \<Rightarrow> 'a::{plus,abs} world \<Rightarrow>
   ('a, 'a world) result" where
  "mergemacro_range inconsistent start end w =
     (case histFileNames start end of
        Inl e \<Rightarrow> Inl (e, w)
      | Inr fileNames \<Rightarrow> mergemacro_files inconsistent fileNames w)"

definition mergemacro ::
  "('a hist \<Rightarrow> 'a hist \<Rightarrow> 'a hist) \<Rightarrow> 'a::{plus,abs} world \<Rightarrow> ('a, 'a world) result" where
  "mergemacro inconsistent = mergemacro_range inconsistent 0 99"

section \<open>drawTuple.C\<close>

text \<open>
  The fields of a binary32 pattern: sign (bit 31), biased exponent (bits 30 to 23) and
  fraction (bits 22 to 0). For a finite value, \<open>scaled x\<close> is its magnitude times
  \<open>2 ^ 149\<close>, a natural number: \<open>fraction * 2 ^ -149\<close> for a subnormal value and
  \<open>(2 ^ 23 + fraction) * 2 ^ (exponent - 150)\<close> otherwise.
\<close>

definition sign_bit :: "Float_t \<Rightarrow> bool" where
  "sign_bit x \<longleftrightarrow> 2 ^ 31 \<le> unat x"

definition exponent_field :: "Float_t \<Rightarrow> nat" where
  "exponent_field x = unat x div 2 ^ 23 mod 2 ^ 8"

definition fraction_field :: "Float_t \<Rightarrow> nat" where
  "fraction_field x = unat x mod 2 ^ 23"

definition isfinite :: "Float_t \<Rightarrow> bool" where
  "isfinite x \<longleftrightarrow> exponent_field x \<noteq> 255"

definition scaled :: "Float_t \<Rightarrow> nat" where
  "scaled x =
     (if exponent_field x = 0 then fraction_field x
      else (2 ^ 23 + fraction_field x) * 2 ^ (exponent_field x - 1))"

text \<open>
  \<^verbatim>\<open>(int)x\<close> discards the fractional part. The C++ standard defines the conversion only when
  the truncated value fits \<^verbatim>\<open>int\<close>; otherwise the compiled macro still delivers some 32-bit
  value, which depends on the processor. The model takes that value from the parameter
  \<open>unrepresentable\<close>; on x86-64 the conversion instruction gives \<open>0x80000000\<close>.
\<close>

definition truncation :: "Float_t \<Rightarrow> int" where
  "truncation x =
     (if sign_bit x then - int (scaled x div 2 ^ 149) else int (scaled x div 2 ^ 149))"

definition representable :: "Float_t \<Rightarrow> bool" where
  "representable x \<longleftrightarrow> isfinite x \<and> - (2 ^ 31) \<le> truncation x \<and> truncation x < 2 ^ 31"

definition int_cast :: "(Float_t \<Rightarrow> 32 word) \<Rightarrow> Float_t \<Rightarrow> int" where
  "int_cast unrepresentable x =
     (if representable x then truncation x else sint (unrepresentable x))"

definition cvttss2si :: "Float_t \<Rightarrow> 32 word" where
  "cvttss2si x = 0x80000000"

text \<open>
  \<^verbatim>\<open>csvFile << fixed << setprecision(2) << x\<close> formats as \<^verbatim>\<open>printf("%.2f", x)\<close> does: the decimal
  numeral with two fraction digits nearest to the exact value of \<open>x\<close> (a tie goes to the
  even last digit), after a minus sign when the sign bit is set; infinities and NaNs are
  written \<^verbatim>\<open>inf\<close> and \<^verbatim>\<open>nan\<close>.
\<close>

definition round_half_even :: "nat \<Rightarrow> nat \<Rightarrow> nat" where
  "round_half_even a b =
     (let q = a div b; r = a mod b in
      if 2 * r < b then q else if b < 2 * r then q + 1 else if even q then q else q + 1)"

definition fixed_point_2 :: "bool \<Rightarrow> nat \<Rightarrow> string" where
  "fixed_point_2 negative n =
     (if negative then ''-'' else []) @ digits (n div 100) @ ''.''
       @ [digit (n div 10 mod 10), digit (n mod 10)]"

definition put_float :: "Float_t \<Rightarrow> string" where
  "put_float x =
     (if isfinite x
      then fixed_point_2 (sign_bit x) (round_half_even (100 * scaled x) (2 ^ 149))
      else (if sign_bit x then ''-'' else []) @ (if fraction_field x = 0 then ''inf'' else ''nan''))"

definition endl :: char where
  "endl = CHR 0x0A"

text \<open>Lines 30 to 40: one entry, ten fields, nine commas, \<^verbatim>\<open>endl\<close>.\<close>

definition csv_line :: "(Float_t \<Rightarrow> 32 word) \<Rightarrow> row \<Rightarrow> string" where
  "csv_line unrepresentable e =
     to_string (int_cast unrepresentable (eventNum e)) @ '','' @
     put_float (dijetMass e) @ '','' @
     put_float (leadingJetPt e) @ '','' @
     put_float (subleadingJetPt e) @ '','' @
     put_float (deltaPhi e) @ '','' @
     put_float (deltaEta e) @ '','' @
     put_float (x1 e) @ '','' @
     put_float (x2 e) @ '','' @
     to_string (int_cast unrepresentable (parton1Id e)) @ '','' @
     to_string (int_cast unrepresentable (parton2Id e))"

text \<open>Lines 28 to 41, over the entries still to write.\<close>

fun write_entries :: "(Float_t \<Rightarrow> 32 word) \<Rightarrow> row list \<Rightarrow> string \<Rightarrow> string" where
  "write_entries unrepresentable [] csvFile = csvFile"
| "write_entries unrepresentable (e # es) csvFile =
     write_entries unrepresentable es (csvFile @ csv_line unrepresentable e @ [endl])"

definition header :: string where
  "header = ''Event,Mass,LeadPt,SubleadPt,DeltaPhi,DeltaEta,x1,x2,Parton1,Parton2''"

text \<open>
  The macro. Line 4 is not checked, so line 7 goes through a null pointer when the merged
  file or its table is missing. Opening the \<^verbatim>\<open>ofstream\<close> replaces \<^verbatim>\<open>dijet_data.csv\<close>.
\<close>

definition drawTuple :: "(Float_t \<Rightarrow> 32 word) \<Rightarrow> 'a world \<Rightarrow> ('a, 'a world) result" where
  "drawTuple unrepresentable w =
     (case TFile_Open w ''merged_tuple.root'' of
        None \<Rightarrow> Inl (NullDereference, w)
      | Some f \<Rightarrow>
          (case Get f ''mergedNtuple'' of
             None \<Rightarrow> Inl (NullDereference, w)
           | Some (TNtuple dijetNtuple) \<Rightarrow>
               let nentries = length dijetNtuple;
                   w1 = w\<lparr>cout := cout w @
                          [''Total number of entries: '' @ to_string (int nentries)]\<rparr>;
                   csvFile = write_entries unrepresentable dijetNtuple (header @ [endl]);
                   w2 = w1\<lparr>files := (files w1)(''dijet_data.csv'' \<mapsto> TextFile csvFile)\<rparr>
               in Inr (w2\<lparr>cout := cout w2 @ [''Data has been saved to dijet_data.csv'']\<rparr>)
           | Some _ \<Rightarrow> Inl (BadCast, w)))"

section \<open>Vocabulary of the statements\<close>

subsection \<open>Sources and what they hold\<close>

text \<open>
  The object a file holds under a name, if the file opens and has such a key; whether a
  file holds a given table; whether a key is of one of the three classes line 25 of
  mergemacro.C lets through.
\<close>

definition lookup :: "'a world \<Rightarrow> string \<Rightarrow> string \<Rightarrow> 'a TObject option" where
  "lookup w fileName name =
     (case TFile_Open w fileName of None \<Rightarrow> None | Some ks \<Rightarrow> Get ks name)"

definition has_table :: "'a world \<Rightarrow> string \<Rightarrow> string \<Rightarrow> row list \<Rightarrow> bool" where
  "has_table w fileName name t \<longleftrightarrow> lookup w fileName name = Some (TNtuple t)"

definition recognized :: "'a TKey \<Rightarrow> bool" where
  "recognized key \<longleftrightarrow>
     GetClassName key = ''TH1F'' \<or> GetClassName key = ''TH1D'' \<or> GetClassName key = ''TH2D''"

subsection \<open>What the histogram merger should write\<close>

text \<open>
  For a histogram name and a later file: the histogram the file contributes (none when it
  does not open or has no such entry) and the line it causes on \<^verbatim>\<open>std::cerr\<close>; whether the
  file can be passed to the inner loop (it has no entry of that name, or a histogram).
  \<open>contributions\<close> are the histograms of that name the later files hold, in file order.
\<close>

definition contribution :: "'a world \<Rightarrow> string \<Rightarrow> string \<Rightarrow> 'a hist list" where
  "contribution w histName fileName =
     (case lookup w fileName histName of Some (TH1 c h) \<Rightarrow> [h] | _ \<Rightarrow> [])"

definition contributions :: "'a world \<Rightarrow> string \<Rightarrow> string list \<Rightarrow> 'a hist list" where
  "contributions w histName rest = concat (map (contribution w histName) rest)"

definition diagnostic :: "'a world \<Rightarrow> string \<Rightarrow> string \<Rightarrow> string list" where
  "diagnostic w histName fileName =
     (case TFile_Open w fileName of
        None \<Rightarrow> [''Error opening file '' @ fileName]
      | Some ks \<Rightarrow>
          (case Get ks histName of
             None \<Rightarrow> [''Histogram '' @ histName @ '' not found in file '' @ fileName]
           | Some _ \<Rightarrow> []))"

definition addable :: "'a world \<Rightarrow> string \<Rightarrow> string \<Rightarrow> bool" where
  "addable w histName fileName =
     (case lookup w fileName histName of
        None \<Rightarrow> True
      | Some (TH1 c h1) \<Rightarrow> True
      | Some _ \<Rightarrow> False)"

text \<open>
  For a key of the first file and the later files \<open>rest\<close>: whether the merger gets through
  it (the first file gives a histogram for its name, and every later file can be passed
  to the inner loop); the key the merger should write, the first file's histogram with
  the contributions of the later files added in order; and the lines it should log.
\<close>

definition mergeable :: "'a world \<Rightarrow> 'a TKey list \<Rightarrow> string list \<Rightarrow> 'a TKey \<Rightarrow> bool" where
  "mergeable w firstFile rest key =
     (case Get firstFile (GetName key) of
        Some (TH1 cls h) \<Rightarrow> \<forall>f\<in>set rest. addable w (GetName key) f
      | _ \<Rightarrow> False)"

definition merged_key ::
  "('a hist \<Rightarrow> 'a hist \<Rightarrow> 'a hist) \<Rightarrow> 'a::{plus,abs} world \<Rightarrow> 'a TKey list \<Rightarrow> string list \<Rightarrow>
   'a TKey \<Rightarrow> 'a TKey" where
  "merged_key inconsistent w firstFile rest key =
     (case Get firstFile (GetName key) of
        Some (TH1 cls h) \<Rightarrow>
          \<lparr>GetName = GetName key,
           ReadObj = TH1 cls (foldl (Add inconsistent) h (contributions w (GetName key) rest))\<rparr>
      | _ \<Rightarrow> key)"

definition diagnostics :: "'a world \<Rightarrow> string list \<Rightarrow> 'a TKey \<Rightarrow> string list" where
  "diagnostics w rest key = concat (map (diagnostic w (GetName key)) rest)"

text \<open>
  The bin contents of the histogram named \<open>histName\<close> in the output of a run of the
  histogram merger, if the run completed and wrote one.
\<close>

definition bin_contents :: "('a, 'a world) result \<Rightarrow> string \<Rightarrow> 'a list option" where
  "bin_contents run histName =
     (case run of
        Inl _ \<Rightarrow> None
      | Inr w \<Rightarrow>
          (case lookup w ''merged_AnalysisResults.root'' histName of
             Some (TH1 c h) \<Rightarrow> Some (cells h)
           | _ \<Rightarrow> None))"





subsection \<open>The exported text\<close>

text \<open>
  The text of a file as its lines: each \<^verbatim>\<open>endl\<close> ends one (a last line without \<^verbatim>\<open>endl\<close>
  counts when it is not empty).
\<close>

fun split_lines :: "string \<Rightarrow> string \<Rightarrow> string list" where
  "split_lines cur [] = (if cur = [] then [] else [cur])"
| "split_lines cur (c # cs) =
     (if c = endl then cur # split_lines [] cs else split_lines (cur @ [c]) cs)"

definition lines_of :: "string \<Rightarrow> string list" where
  "lines_of text = split_lines [] text"

text \<open>
  The export contract of the specification (section 4.3), in its own words. A float
  field is "rendered with fixed 2-decimal precision": the text is the numeral of some
  number of hundredths \<open>n\<close>, signed as the value is, and \<open>n / 100\<close> is within half a
  hundredth of the magnitude. An entry is exported as ten comma-separated fields, the
  event index and the parton identifiers "as integers (truncating any fractional part)".
\<close>

definition magnitude :: "Float_t \<Rightarrow> real" where
  "magnitude x = real (scaled x) / 2 ^ 149"

definition two_decimals :: "Float_t \<Rightarrow> string \<Rightarrow> bool" where
  "two_decimals x s \<longleftrightarrow>
     (\<exists>n. s = fixed_point_2 (sign_bit x) n \<and> \<bar>real n / 100 - magnitude x\<bar> \<le> 1 / 200)"

definition as_specified :: "row \<Rightarrow> string \<Rightarrow> bool" where
  "as_specified e line \<longleftrightarrow>
     (\<exists>m l s p d a b.
        line = to_string (truncation (eventNum e)) @ '','' @ m @ '','' @ l @ '','' @ s @ '',''
                 @ p @ '','' @ d @ '','' @ a @ '','' @ b @ '',''
                 @ to_string (truncation (parton1Id e)) @ '',''
                 @ to_string (truncation (parton2Id e))
        \<and> two_decimals (dijetMass e) m \<and> two_decimals (leadingJetPt e) l
        \<and> two_decimals (subleadingJetPt e) s \<and> two_decimals (deltaPhi e) p
        \<and> two_decimals (deltaEta e) d \<and> two_decimals (x1 e) a \<and> two_decimals (x2 e) b)"

text \<open>
  The entries for which the C++ standard defines every conversion of lines 31 to 40 and
  every float field has a decimal value.
\<close>

definition exportable :: "row \<Rightarrow> bool" where
  "exportable e \<longleftrightarrow>
     representable (eventNum e) \<and> representable (parton1Id e) \<and> representable (parton2Id e)
     \<and> isfinite (dijetMass e) \<and> isfinite (leadingJetPt e) \<and> isfinite (subleadingJetPt e)
     \<and> isfinite (deltaPhi e) \<and> isfinite (deltaEta e) \<and> isfinite (x1 e) \<and> isfinite (x2 e)"

section \<open>The arithmetic of the bin contents\<close>

text \<open>
  The cells, the entry count and the bin edges of a \<^verbatim>\<open>TH1D\<close> or \<^verbatim>\<open>TH2D\<close> are \<^verbatim>\<open>Double_t\<close>: IEEE-754
  binary64 values, kept as their 64-bit patterns, with sign (bit 63), biased exponent
  (bits 62 to 52) and fraction (bits 51 to 0). For a finite value, \<open>units x\<close> is the value
  times \<open>2 ^ 1074\<close>, an integer.
\<close>

datatype Double_t = Double_t (bits: "64 word")

definition negative :: "Double_t \<Rightarrow> bool" where
  "negative x \<longleftrightarrow> 2 ^ 63 \<le> unat (bits x)"

definition exponent :: "Double_t \<Rightarrow> nat" where
  "exponent x = unat (bits x) div 2 ^ 52 mod 2 ^ 11"

definition fraction :: "Double_t \<Rightarrow> nat" where
  "fraction x = unat (bits x) mod 2 ^ 52"

definition units :: "Double_t \<Rightarrow> int" where
  "units x =
     (let m = (if exponent x = 0 then fraction x
               else (2 ^ 52 + fraction x) * 2 ^ (exponent x - 1))
      in if negative x then - int m else int m)"

text \<open>
  The number of binary digits of a natural number, and the \<^verbatim>\<open>double\<close> nearest to a magnitude
  of \<open>m\<close> units (a tie goes to the even fraction; a magnitude beyond the largest finite
  value gives infinity). A magnitude of at most 53 digits is its own pattern; a longer
  one loses \<open>shift\<close> digits, and the pattern of the rounded quotient \<open>q\<close> is
  \<open>shift * 2 ^ 52 + q\<close>, also when \<open>q\<close> has reached \<open>2 ^ 53\<close>.
\<close>

fun bit_length :: "nat \<Rightarrow> nat" where
  "bit_length n = (if n = 0 then 0 else Suc (bit_length (n div 2)))"

declare bit_length.simps [simp del]

definition nearest :: "bool \<Rightarrow> nat \<Rightarrow> Double_t" where
  "nearest neg m =
     (let shift = bit_length m - 53;
          p = shift * 2 ^ 52 + round_half_even m (2 ^ shift);
          pattern = (if 2047 * 2 ^ 52 \<le> p then 2047 * 2 ^ 52 else p)
      in Double_t (of_nat (if neg then 2 ^ 63 + pattern else pattern)))"

text \<open>
  Addition in the default rounding mode, and \<^verbatim>\<open>TMath::Abs\<close>. A NaN operand is returned with
  its quiet bit set (the first one when both are, as the x86-64 instruction does), and
  the sum of opposite infinities is the default NaN of that processor. The sum of finite
  values is the \<^verbatim>\<open>double\<close> nearest to the exact sum; an exact sum of zero is \<open>-0\<close> only when
  both operands are negative.
\<close>

definition quiet :: "Double_t \<Rightarrow> Double_t" where
  "quiet x = (if fraction x div 2 ^ 51 = 1 then x else Double_t (bits x + 2 ^ 51))"

instantiation Double_t :: "{plus,abs}"
begin

definition plus_Double_t :: "Double_t \<Rightarrow> Double_t \<Rightarrow> Double_t" where
  "x + y =
     (if exponent x = 2047 \<and> fraction x \<noteq> 0 then quiet x
      else if exponent y = 2047 \<and> fraction y \<noteq> 0 then quiet y
      else if exponent x = 2047
        then (if exponent y = 2047 \<and> negative x \<noteq> negative y
              then Double_t 0xFFF8000000000000 else x)
      else if exponent y = 2047 then y
      else
        let s = units x + units y in
        if s = 0 then Double_t (if negative x \<and> negative y then 2 ^ 63 else 0)
        else nearest (s < 0) (nat \<bar>s\<bar>))"

definition abs_Double_t :: "Double_t \<Rightarrow> Double_t" where
  "\<bar>x\<bar> = (if negative x then Double_t (bits x - 2 ^ 63) else x)"

instance ..

end

section \<open>A small directory for the worked instances\<close>

text \<open>
  The entry of the export example: event index \<open>n\<close>, then the \<^verbatim>\<open>float\<close>s nearest to 123.456,
  50.1, 30.2, 3.14159, 0.01, 0.002 and 0.5, and the parton identifiers 21 and -1.
\<close>

definition entry :: "Float_t \<Rightarrow> row" where
  "entry n =
     \<lparr>eventNum = n, dijetMass = 0x42F6E979, leadingJetPt = 0x42486666,
      subleadingJetPt = 0x41F1999A, deltaPhi = 0x40490FD0, deltaEta = 0x3C23D70A,
      x1 = 0x3B03126F, x2 = 0x3F000000, parton1Id = 0x41A80000, parton2Id = 0xBF800000\<rparr>"

definition table0 :: "row list" where
  "table0 = [entry 0x40E00000, entry 0x41100000]"

definition table1 :: "row list" where
  "table1 = [entry 0x40400000]"

text \<open>
  Three run files with integer counts: \<open>run1\<close> has no \<^verbatim>\<open>hDijetMass\<close>. The directory holds
  \<open>run2\<close> twice and something stale at the tuple merger's destination.
\<close>

definition run0 :: "int TKey list" where
  "run0 =
     [\<lparr>GetName = ''hnevent'', ReadObj = TH1 ''TH1D'' \<lparr>axes = [[0, 1]], cells = [0, 5, 0], fEntries = 5\<rparr>\<rparr>,
      \<lparr>GetName = ''hDijetMass'', ReadObj = TH1 ''TH1D'' \<lparr>axes = [[40, 45, 55]], cells = [1, 2, 0, 4], fEntries = 7\<rparr>\<rparr>,
      \<lparr>GetName = ''dijetNtuple'', ReadObj = TNtuple table0\<rparr>]"

definition run1 :: "int TKey list" where
  "run1 =
     [\<lparr>GetName = ''hnevent'', ReadObj = TH1 ''TH1D'' \<lparr>axes = [[0, 1]], cells = [0, 3, 0], fEntries = 3\<rparr>\<rparr>,
      \<lparr>GetName = ''dijetNtuple'', ReadObj = TNtuple table1\<rparr>]"

definition run2 :: "int TKey list" where
  "run2 =
     [\<lparr>GetName = ''hnevent'', ReadObj = TH1 ''TH1D'' \<lparr>axes = [[0, 1]], cells = [0, 2, 0], fEntries = 2\<rparr>\<rparr>,
      \<lparr>GetName = ''hDijetMass'', ReadObj = TH1 ''TH1D'' \<lparr>axes = [[40, 45, 55]], cells = [0, 1, 1, 0], fEntries = 2\<rparr>\<rparr>,
      \<lparr>GetName = ''dijetNtuple'', ReadObj = TNtuple []\<rparr>]"

definition directory :: "int world" where
  "directory =
     \<lparr>files = [''AnalysisResults0.root'' \<mapsto> RootFile run0,
                ''AnalysisResults1.root'' \<mapsto> RootFile run1,
                ''AnalysisResults2.root'' \<mapsto> RootFile run2,
                ''AnalysisResults3.root'' \<mapsto> RootFile run2,
                ''merged_tuple.root'' \<mapsto> TextFile ''stale''],
      cerr = [], cout = []\<rparr>"

text \<open>
  For the worked instances, \<^verbatim>\<open>Add\<close> on histograms of different binning is the one that gives
  up and leaves \<^verbatim>\<open>mergedHist\<close> as it is.
\<close>

definition gives_up :: "'a hist \<Rightarrow> 'a hist \<Rightarrow> 'a hist" where
  "gives_up h h1 = h"



text \<open>
  An entry whose event index is \<open>2 ^ 31\<close> (the \<^verbatim>\<open>float\<close> nearest to the largest \<^verbatim>\<open>int\<close>) and
  whose mass is \<open>+\<infinity>\<close>; a directory holding a merged table.
\<close>

definition overflowing :: row where
  "overflowing = (entry 0x4F000000)\<lparr>dijetMass := 0x7F800000\<rparr>"

definition merged_directory :: "int world" where
  "merged_directory =
     \<lparr>files = [''merged_tuple.root'' \<mapsto>
                  RootFile [\<lparr>GetName = ''mergedNtuple'', ReadObj = TNtuple table0\<rparr>]],
      cerr = [], cout = []\<rparr>"


section \<open>Files and keys\<close>

lemma Get_Nil [simp]: "Get [] n = None"
  by (simp add: Get_def)

lemma Get_Cons [simp]: "Get (k # ks) n = (if GetName k = n then Some (ReadObj k) else Get ks n)"
  by (simp add: Get_def)

lemma Get_distinct:
  "distinct (map GetName ks) \<Longrightarrow> k \<in> set ks \<Longrightarrow> Get ks (GetName k) = Some (ReadObj k)"
  by (induction ks) (auto simp: rev_image_eqI)

lemma Get_member: "k \<in> set ks \<Longrightarrow> Get ks (GetName k) \<noteq> None"
  by (induction ks) auto


lemma Get_Some_member: "Get ks n = Some obj \<Longrightarrow> \<exists>k\<in>set ks. GetName k = n \<and> ReadObj k = obj"
  by (induction ks) (auto split: if_splits)


lemma TFile_Open_RECREATE:
  "TFile_Open (RECREATE out w) name = (if name = out then Some [] else TFile_Open w name)"
  by (simp add: TFile_Open_def RECREATE_def)

lemma TFile_Open_Write:
  "f \<noteq> out \<Longrightarrow> TFile_Open (Write out k w) f = TFile_Open w f"
  by (simp add: TFile_Open_def Write_def split: option.splits content.splits)

lemma TFile_Open_cerr_update [simp]:
  "TFile_Open (w\<lparr>cerr := c\<rparr>) f = TFile_Open w f"
  by (simp add: TFile_Open_def)

lemma Write_RootFile:
  "files w out = Some (RootFile ks) \<Longrightarrow>
   Write out k w = w\<lparr>files := (files w)(out \<mapsto> RootFile (ks @ [k]))\<rparr>"
  by (simp add: Write_def)

lemma RECREATE_prior: "RECREATE name (w\<lparr>files := (files w)(name := prior)\<rparr>) = RECREATE name w"
  by (simp add: RECREATE_def)

lemma TFile_Open_log_cerr [simp]: "TFile_Open (log_cerr l w) f = TFile_Open w f"
  by (simp add: TFile_Open_def log_cerr_def)

lemma in_concat_map: "x \<in> set xs \<Longrightarrow> y \<in> set (f x) \<Longrightarrow> y \<in> set (concat (map f xs))"
  by auto

section \<open>The counters\<close>

lemma push_back_names_Inr:
  "push_back_names i end acc = Inr fileNames \<Longrightarrow> fileNames = acc @ map histFileName [i..end]"
proof (induction "nat (end + 1 - i)" arbitrary: i acc)
  case 0
  then have "\<not> i \<le> end" by simp
  with 0 show ?case
    by (simp add: push_back_names.simps [of i])
next
  case (Suc n)
  from Suc.hyps(2) have le: "i \<le> end" and n: "n = nat (end + 1 - (i + 1))"
    by simp_all
  from Suc.prems le have ni: "\<not> INT_MAX \<le> i"
    by (auto simp: push_back_names.simps [of i])
  with Suc.prems le
  have "push_back_names (i + 1) end (acc @ [histFileName i]) = Inr fileNames"
    by (simp add: push_back_names.simps [of i])
  from Suc.hyps(1) [OF n this] le show ?case
    by (simp add: upto_rec1)
qed

lemma push_back_names_ok:
  "end < INT_MAX \<Longrightarrow> push_back_names i end acc = Inr (acc @ map histFileName [i..end])"
proof (induction "nat (end + 1 - i)" arbitrary: i acc)
  case 0
  then have "\<not> i \<le> end" by simp
  then show ?case
    by (simp add: push_back_names.simps [of i])
next
  case (Suc n)
  from Suc.hyps(2) have le: "i \<le> end" and n: "n = nat (end + 1 - (i + 1))"
    by simp_all
  from le Suc.prems have ni: "\<not> INT_MAX \<le> i"
    by simp
  from Suc.hyps(1) [OF n Suc.prems, of "acc @ [histFileName i]"] le ni show ?case
    by (simp add: push_back_names.simps [of i] upto_rec1)
qed

lemma push_back_names_overflow:
  "i \<le> end \<Longrightarrow> INT_MAX \<le> end \<Longrightarrow> push_back_names i end acc = Inl SignedOverflow"
proof (induction "nat (INT_MAX - i)" arbitrary: i acc)
  case 0
  then show ?case
    by (simp add: push_back_names.simps [of i])
next
  case (Suc n)
  from Suc.hyps(2) have ni: "\<not> INT_MAX \<le> i" and n: "n = nat (INT_MAX - (i + 1))"
    by simp_all
  from ni Suc.prems(2) have "i + 1 \<le> end"
    by simp
  from Suc.hyps(1) [OF n this Suc.prems(2), of "acc @ [histFileName i]"] ni Suc.prems(1)
  show ?case
    by (simp add: push_back_names.simps [of i])
qed

lemma histFileNames_ok:
  "end < INT_MAX \<Longrightarrow> histFileNames start end = Inr (map histFileName [start..end])"
  by (simp add: histFileNames_def push_back_names_ok)

lemma histFileNames_Inr:
  "histFileNames start end = Inr fileNames \<Longrightarrow> fileNames = map histFileName [start..end]"
  unfolding histFileNames_def by (drule push_back_names_Inr) simp

lemma histFileNames_Nil: "end < start \<Longrightarrow> histFileNames start end = Inr []"
  by (simp add: histFileNames_def push_back_names.simps [of start])

lemma histFileNames_overflow:
  "start \<le> end \<Longrightarrow> INT_MAX \<le> end \<Longrightarrow> histFileNames start end = Inl SignedOverflow"
  by (simp add: histFileNames_def push_back_names_overflow)

section \<open>mergetuple.C: the merged table\<close>

lemma fill_entries_append: "fill_entries es t = t @ es"
  by (induction es arbitrary: t) (simp_all add: Fill_def)

lemma tupleFileName_not_merged: "tupleFileName i \<noteq> ''merged_tuple.root''"
  by (simp add: tupleFileName_def)

lemma has_table_RECREATE:
  "fileName \<noteq> out \<Longrightarrow> has_table (RECREATE out w) fileName name t = has_table w fileName name t"
  by (simp add: has_table_def lookup_def TFile_Open_RECREATE)

lemma mergetuple_loop_step:
  assumes "i \<le> end" and "i < INT_MAX"
    and "has_table w (tupleFileName i) ''dijetNtuple'' t"
  shows "mergetuple_loop i end w acc = mergetuple_loop (i + 1) end w (acc @ t)"
proof -
  from assms(3) obtain ks where "TFile_Open w (tupleFileName i) = Some ks"
    and "Get ks ''dijetNtuple'' = Some (TNtuple t)"
    by (auto simp: has_table_def lookup_def split: option.splits)
  with assms(1,2) show ?thesis
    by (simp add: mergetuple_loop.simps [of i] fill_entries_append)
qed

lemma mergetuple_loop_concat:
  assumes "end < INT_MAX"
    and "\<forall>j\<in>set [i..end]. has_table w (tupleFileName j) ''dijetNtuple'' (src j)"
  shows "mergetuple_loop i end w acc = Inr (acc @ concat (map src [i..end]))"
  using assms
proof (induction "nat (end + 1 - i)" arbitrary: i acc)
  case 0
  then have "\<not> i \<le> end" by simp
  then show ?case
    by (simp add: mergetuple_loop.simps [of i])
next
  case (Suc n)
  from Suc.hyps(2) have le: "i \<le> end" and n: "n = nat (end + 1 - (i + 1))"
    by simp_all
  from le Suc.prems(1) have lt: "i < INT_MAX"
    by simp
  from le Suc.prems(2) have t: "has_table w (tupleFileName i) ''dijetNtuple'' (src i)"
    by simp
  from le Suc.prems(2)
  have "\<forall>j\<in>set [i + 1..end]. has_table w (tupleFileName j) ''dijetNtuple'' (src j)"
    by (simp add: upto_rec1)
  from Suc.hyps(1) [OF n Suc.prems(1) this, of "acc @ src i"] le show ?case
    unfolding mergetuple_loop_step [OF le lt t] by (simp add: upto_rec1)
qed

lemma mergetuple_range_ok:
  assumes "end < INT_MAX"
    and "\<forall>i\<in>set [start..end]. has_table w (tupleFileName i) ''dijetNtuple'' (src i)"
  shows "mergetuple_range start end w =
           Inr (w\<lparr>files := (files w)(''merged_tuple.root'' \<mapsto>
                  RootFile [\<lparr>GetName = ''mergedNtuple'',
                             ReadObj = TNtuple (concat (map src [start..end]))\<rparr>])\<rparr>)"
proof -
  let ?w1 = "RECREATE ''merged_tuple.root'' w"
  from assms(2)
  have "\<forall>i\<in>set [start..end]. has_table ?w1 (tupleFileName i) ''dijetNtuple'' (src i)"
    by (simp add: has_table_RECREATE tupleFileName_not_merged)
  with assms(1)
  have "mergetuple_loop start end ?w1 [] = Inr ([] @ concat (map src [start..end]))"
    by (rule mergetuple_loop_concat)
  then show ?thesis
    by (simp add: mergetuple_range_def Write_def RECREATE_def)
qed

lemma mergetuple_loop_missing:
  assumes "\<exists>j\<in>set [i..end]. lookup w (tupleFileName j) ''dijetNtuple'' = None"
  shows "\<exists>e. mergetuple_loop i end w acc = Inl (e, w)"
  using assms
proof (induction "nat (end + 1 - i)" arbitrary: i acc)
  case 0
  then have "\<not> i \<le> end" by simp
  with 0 show ?case
    by simp
next
  case (Suc n)
  from Suc.hyps(2) have le: "i \<le> end" and n: "n = nat (end + 1 - (i + 1))"
    by simp_all
  show ?case
  proof (cases "lookup w (tupleFileName i) ''dijetNtuple''")
    case None
    with le show ?thesis
      by (auto simp: mergetuple_loop.simps [of i] lookup_def split: option.splits)
  next
    case (Some obj)
    with Suc.prems le
    have "\<exists>j\<in>set [i + 1..end]. lookup w (tupleFileName j) ''dijetNtuple'' = None"
      by (auto simp: upto_rec1)
    from Suc.hyps(1) [OF n this] Some le show ?thesis
      by (auto simp: mergetuple_loop.simps [of i] lookup_def split: option.splits TObject.splits)
  qed
qed

lemma mergetuple_range_overflow:
  assumes "has_table w (tupleFileName INT_MAX) ''dijetNtuple'' t"
  shows "mergetuple_range INT_MAX INT_MAX w =
           Inl (SignedOverflow, RECREATE ''merged_tuple.root'' w)"
proof -
  from assms obtain ks where "TFile_Open w (tupleFileName INT_MAX) = Some ks"
    and "Get ks ''dijetNtuple'' = Some (TNtuple t)"
    by (auto simp: has_table_def lookup_def split: option.splits)
  then show ?thesis
    by (simp add: mergetuple_range_def mergetuple_loop.simps [of INT_MAX]
        TFile_Open_RECREATE tupleFileName_not_merged)
qed

subsection \<open>A worked instance\<close>

lemma upto_0_1: "[0..1] = [0, 1::int]"
  by (simp add: upto.simps)

lemma upto_1_2: "[1..2] = [1, 2::int]"
  by (simp add: upto.simps)

lemma run0_has_table: "has_table directory (tupleFileName 0) ''dijetNtuple'' table0"
  by (simp add: has_table_def lookup_def TFile_Open_def directory_def tupleFileName_def
      to_string_def digits.simps digit_def Get_def run0_def)

lemma run1_has_table: "has_table directory (tupleFileName 1) ''dijetNtuple'' table1"
  by (simp add: has_table_def lookup_def TFile_Open_def directory_def tupleFileName_def
      to_string_def digits.simps digit_def Get_def run1_def)

subsection \<open>Claim C1\<close>

text \<open>
  Claim C1. For a range of \<^verbatim>\<open>int\<close>s whose upper end is not the largest \<^verbatim>\<open>int\<close>: when every file
  of the range holds a table \<^verbatim>\<open>dijetNtuple\<close> (\<open>src i\<close> being the entries of file \<open>i\<close>), the
  tuple merger succeeds and writes one table: the entries of the sources one after the
  other, in ascending index order, each source's entries in their own order and with
  their ten values unchanged. Its number of entries is the sum of the sources' numbers of
  entries. (With \<open>INT_MAX\<close> as upper end the counter of line 14 overflows after the last
  file and the table is not written: \<open>mergetuple_range_overflow\<close>.)
\<close>

theorem mergetuple_concatenates:
  assumes "INT_MIN \<le> start" and "end < INT_MAX"
    and "\<forall>i\<in>set [start..end]. has_table w (tupleFileName i) ''dijetNtuple'' (src i)"
  shows "mergetuple_range start end w =
           Inr (w\<lparr>files := (files w)(''merged_tuple.root'' \<mapsto>
                  RootFile [\<lparr>GetName = ''mergedNtuple'',
                             ReadObj = TNtuple (concat (map src [start..end]))\<rparr>])\<rparr>)
         \<and> length (concat (map src [start..end])) = (\<Sum>i\<leftarrow>[start..end]. length (src i))"
  using mergetuple_range_ok [OF assms(2,3)] by (simp add: length_concat comp_def)

theorem mergetuple_concatenates_witness:
  "INT_MIN \<le> 0 \<and> 1 < INT_MAX
   \<and> has_table directory (tupleFileName 0) ''dijetNtuple'' table0
   \<and> has_table directory (tupleFileName 1) ''dijetNtuple'' table1
   \<and> mergetuple_range 0 1 directory =
       Inr (directory\<lparr>files := (files directory)(''merged_tuple.root'' \<mapsto>
              RootFile [\<lparr>GetName = ''mergedNtuple'', ReadObj = TNtuple (table0 @ table1)\<rparr>])\<rparr>)
   \<and> length (table0 @ table1) = length table0 + length table1"
proof -
  have h: "\<forall>i\<in>set [0..1].
      has_table directory (tupleFileName i) ''dijetNtuple'' (if i = 0 then table0 else table1)"
    by (simp add: upto_0_1 run0_has_table run1_has_table)
  have b: "INT_MIN \<le> 0" "1 < INT_MAX"
    by (simp_all add: INT_MIN_def INT_MAX_def)
  from mergetuple_concatenates [OF b h] b show ?thesis
    by (simp add: upto_0_1 run0_has_table run1_has_table)
qed


section \<open>mergemacro.C: one histogram over the later files\<close>

lemma lookup_log_cerr [simp]: "lookup (log_cerr l w) f n = lookup w f n"
  by (simp add: lookup_def)

lemma contribution_log_cerr [simp]: "contribution (log_cerr l w) n f = contribution w n f"
  by (simp add: contribution_def)

lemma diagnostic_log_cerr [simp]: "diagnostic (log_cerr l w) n f = diagnostic w n f"
  by (simp add: diagnostic_def)

lemma addable_log_cerr [simp]: "addable (log_cerr l w) n f = addable w n f"
  by (simp add: addable_def)

lemma contributions_Nil [simp]: "contributions w n [] = []"
  by (simp add: contributions_def)

lemma contributions_Cons [simp]:
  "contributions w n (f # fs) = contribution w n f @ contributions w n fs"
  by (simp add: contributions_def)

lemma contributions_log_cerr [simp]: "contributions (log_cerr l w) n fs = contributions w n fs"
  by (induction fs) simp_all

lemma cerr_log_cerr_append:
  "log_cerr l w\<lparr>cerr := cerr (log_cerr l w) @ ls\<rparr> = w\<lparr>cerr := cerr w @ l # ls\<rparr>"
  by (simp add: log_cerr_def)

lemma add_files_ok:
  assumes "\<forall>f\<in>set fs. addable w histName f"
  shows "add_files M histName fs w h =
           Inr (w\<lparr>cerr := cerr w @ concat (map (diagnostic w histName) fs)\<rparr>,
                foldl (Add M) h (contributions w histName fs))"
  using assms
proof (induction fs arbitrary: w h)
  case Nil
  then show ?case by simp
next
  case (Cons f fs)
  show ?case
  proof (cases "TFile_Open w f")
    case None
    with Cons.prems have "\<forall>g\<in>set fs. addable (log_cerr (''Error opening file '' @ f) w) histName g"
      by simp
    from Cons.IH [OF this] None show ?thesis
      by (simp add: diagnostic_def contribution_def lookup_def cerr_log_cerr_append)
  next
    case (Some ks)
    show ?thesis
    proof (cases "Get ks histName")
      case None
      with Cons.prems have "\<forall>g\<in>set fs. addable (log_cerr (''Histogram '' @ histName @ '' not found in file '' @ f) w) histName g"
        by simp
      from Cons.IH [OF this] None Some show ?thesis
        by (simp add: diagnostic_def contribution_def lookup_def cerr_log_cerr_append)
    next
      case obj: (Some obj)
      from Cons.prems have "addable w histName f" by simp
      with Some obj obtain c h1 where o: "obj = TH1 c h1"
        by (auto simp: addable_def lookup_def split: TObject.splits)
      from Cons.prems have "\<forall>g\<in>set fs. addable w histName g"
        by simp
      from Cons.IH [OF this] Some obj o show ?thesis
        by (simp add: diagnostic_def contribution_def lookup_def)
    qed
  qed
qed


lemma contribution_cong:
  "TFile_Open w f = TFile_Open w0 f \<Longrightarrow> contribution w n f = contribution w0 n f"
  by (simp add: contribution_def lookup_def)

lemma diagnostic_cong:
  "TFile_Open w f = TFile_Open w0 f \<Longrightarrow> diagnostic w n f = diagnostic w0 n f"
  by (simp add: diagnostic_def)

lemma addable_cong:
  "TFile_Open w f = TFile_Open w0 f \<Longrightarrow> addable w n f = addable w0 n f"
  by (simp add: addable_def lookup_def)

lemma add_files_ok_cong:
  assumes same: "\<forall>f\<in>set fs. TFile_Open w f = TFile_Open w0 f"
    and ok: "\<forall>f\<in>set fs. addable w0 histName f"
  shows "add_files M histName fs w h =
           Inr (w\<lparr>cerr := cerr w @ concat (map (diagnostic w0 histName) fs)\<rparr>,
                foldl (Add M) h (contributions w0 histName fs))"
proof -
  from same ok have a: "\<forall>f\<in>set fs. addable w histName f"
    by (simp add: addable_cong [of w _ w0])
  from same have d: "map (diagnostic w histName) fs = map (diagnostic w0 histName) fs"
    by (simp add: diagnostic_cong [of w _ w0])
  from same have c: "contributions w histName fs = contributions w0 histName fs"
    by (simp add: contributions_def contribution_cong [of w _ w0] cong: map_cong)
  show ?thesis
    unfolding add_files_ok [OF a] d c by (rule refl)
qed


lemma add_files_unopened:
  "TFile_Open w fileName = None \<Longrightarrow>
   add_files M histName (fileName # rest) w mergedHist =
   add_files M histName rest (log_cerr (''Error opening file '' @ fileName) w) mergedHist"
  by simp

lemma add_files_files:
  "add_files M histName fs w h = Inr (w', h') \<Longrightarrow> files w' = files w"
proof (induction fs arbitrary: w h)
  case Nil
  then show ?case by simp
next
  case (Cons f fs)
  then show ?case
    by (fastforce simp: log_cerr_def split: option.splits TObject.splits if_splits)
qed

subsection \<open>Adding histograms of one binning\<close>

lemma consistent_Add:
  "consistent h h1 \<Longrightarrow> consistent (Add M h h1) h2 = consistent h h2"
  by (auto simp: consistent_def Add_def)

lemma foldl_Add_consistent:
  assumes "\<forall>h1\<in>set hs. consistent h h1"
  shows "axes (foldl (Add M) h hs) = axes h
         \<and> cells (foldl (Add M) h hs) =
             map (\<lambda>j. foldl (+) (cells h ! j) (map (\<lambda>h1. cells h1 ! j) hs)) [0..<length (cells h)]
         \<and> fEntries (foldl (Add M) h hs) = foldl (\<lambda>e h1. \<bar>e + fEntries h1\<bar>) (fEntries h) hs"
  using assms
proof (induction hs arbitrary: h)
  case Nil
  then show ?case by (simp add: map_nth)
next
  case (Cons h1 hs)
  from Cons.prems have c: "consistent h h1" by simp
  then have len: "length (cells h1) = length (cells h)"
    by (simp add: consistent_def)
  from c have a: "Add M h h1 =
      h\<lparr>cells := map2 (+) (cells h) (cells h1), fEntries := \<bar>fEntries h + fEntries h1\<bar>\<rparr>"
    by (simp add: Add_def)
  let ?h = "Add M h h1"
  from Cons.prems have "\<forall>x\<in>set hs. consistent ?h x"
    by (simp add: consistent_Add [OF c])
  note IH = Cons.IH [OF this]
  have ax: "axes ?h = axes h" and ce: "cells ?h = map2 (+) (cells h) (cells h1)"
    and en: "fEntries ?h = \<bar>fEntries h + fEntries h1\<bar>"
    by (simp_all add: a)
  have "map (\<lambda>j. foldl (+) (cells ?h ! j) (map (\<lambda>x. cells x ! j) hs)) [0..<length (cells ?h)] =
        map (\<lambda>j. foldl (+) (cells h ! j) (map (\<lambda>x. cells x ! j) (h1 # hs))) [0..<length (cells h)]"
    unfolding ce using len by (intro map_cong) simp_all
  with IH ax en show ?case
    by simp
qed



section \<open>mergemacro.C: the keys of the first file\<close>

lemma merge_keys_skip:
  "\<not> recognized key \<Longrightarrow>
   merge_keys M firstFile fileNames (key # keys) w = merge_keys M firstFile fileNames keys w"
  by (simp add: recognized_def Let_def)

lemma merge_keys_write:
  assumes "recognized key"
    and "Get firstFile (GetName key) = Some (TH1 cls h)"
    and "add_files M (GetName key) (tl fileNames) w h = Inr (w', h')"
  shows "merge_keys M firstFile fileNames (key # keys) w =
         merge_keys M firstFile fileNames keys
           (Write ''merged_AnalysisResults.root'' \<lparr>GetName = GetName key, ReadObj = TH1 cls h'\<rparr> w')"
proof -
  from assms(1)
  have c: "\<not> (GetClassName key \<noteq> ''TH1F'' \<and> GetClassName key \<noteq> ''TH1D''
              \<and> GetClassName key \<noteq> ''TH2D'')"
    unfolding recognized_def by blast
  show ?thesis
    by (simp only: merge_keys.simps Let_def if_not_P [OF c] assms(2,3)
        option.case TObject.case sum.case prod.case)
qed


lemma GetName_merged_key [simp]: "GetName (merged_key M w ff rest k) = GetName k"
  by (simp add: merged_key_def split: option.splits TObject.splits)

lemma ReadObj_merged_key:
  "Get ff (GetName k) = Some (TH1 cls h) \<Longrightarrow>
   ReadObj (merged_key M w ff rest k) =
     TH1 cls (foldl (Add M) h (contributions w (GetName k) rest))"
  by (simp add: merged_key_def)


lemma Get_merged:
  assumes "key \<in> set ks" and "recognized key"
    and "Get ff (GetName key) = Some (TH1 cls h)"
  shows "Get (map (merged_key M w ff rest) (filter recognized ks)) (GetName key) =
           Some (TH1 cls (foldl (Add M) h (contributions w (GetName key) rest)))"
  using assms(1)
proof (induction ks)
  case Nil
  then show ?case by simp
next
  case (Cons k ks)
  show ?case
  proof (cases "recognized k \<and> GetName k = GetName key")
    case True
    with assms(3) have "Get ff (GetName k) = Some (TH1 cls h)" by simp
    from ReadObj_merged_key [OF this] True show ?thesis by simp
  next
    case False
    with Cons.prems assms(2) have "key \<in> set ks" by auto
    from Cons.IH [OF this] False show ?thesis by auto
  qed
qed

lemma merge_keys_ok:
  assumes "out = ''merged_AnalysisResults.root''"
    and "out \<notin> set (tl fileNames)"
    and "\<forall>f\<in>set (tl fileNames). TFile_Open w f = TFile_Open w0 f"
    and "files w out = Some (RootFile outks)"
    and "\<forall>k\<in>set keys. recognized k \<longrightarrow> mergeable w0 firstFile (tl fileNames) k"
  shows "merge_keys M firstFile fileNames keys w =
           Inr (w\<lparr>files := (files w)(out \<mapsto> RootFile
                    (outks @ map (merged_key M w0 firstFile (tl fileNames)) (filter recognized keys))),
                  cerr := cerr w @ concat (map (diagnostics w0 (tl fileNames)) (filter recognized keys))\<rparr>)"
  using assms
proof (induction keys arbitrary: w outks)
  case Nil
  then show ?case by (simp add: map_upd_triv)
next
  case (Cons key keys)
  let ?rest = "tl fileNames"
  have 5: "\<forall>k\<in>set keys. recognized k \<longrightarrow> mergeable w0 firstFile ?rest k"
    using Cons.prems(5) by simp
  show ?case
  proof (cases "recognized key")
    case False
    then have "merge_keys M firstFile fileNames (key # keys) w = merge_keys M firstFile fileNames keys w"
      by (rule merge_keys_skip)
    with False show ?thesis
      using Cons.IH [OF Cons.prems(1-4) 5] by (simp del: merge_keys.simps)
  next
    case True
    with Cons.prems have "mergeable w0 firstFile ?rest key" by simp
    then obtain cls h where g: "Get firstFile (GetName key) = Some (TH1 cls h)"
      and a: "\<forall>f\<in>set ?rest. addable w0 (GetName key) f"
      by (auto simp: mergeable_def split: option.splits TObject.splits)
    define h' where "h' = foldl (Add M) h (contributions w0 (GetName key) ?rest)"
    define w' where "w' = w\<lparr>cerr := cerr w @ concat (map (diagnostic w0 (GetName key)) ?rest)\<rparr>"
    define k' where "k' = \<lparr>GetName = GetName key, ReadObj = TH1 cls h'\<rparr>"
    define w'' where "w'' = Write ''merged_AnalysisResults.root'' k' w'"
    have af: "add_files M (GetName key) ?rest w h = Inr (w', h')"
      unfolding w'_def h'_def using Cons.prems(3) a by (rule add_files_ok_cong)
    have fw': "files w' out = Some (RootFile outks)"
      using Cons.prems(4) by (simp add: w'_def)
    have w'': "w'' = w'\<lparr>files := (files w')(out \<mapsto> RootFile (outks @ [k']))\<rparr>"
      unfolding w''_def using fw' Cons.prems(1) by (simp add: Write_RootFile)
    have step: "merge_keys M firstFile fileNames (key # keys) w = merge_keys M firstFile fileNames keys w''"
      unfolding w''_def k'_def using True g af by (rule merge_keys_write)
    have 3: "\<forall>f\<in>set ?rest. TFile_Open w'' f = TFile_Open w0 f"
    proof
      fix f assume f: "f \<in> set ?rest"
      with Cons.prems(1,2) have "f \<noteq> ''merged_AnalysisResults.root''" by auto
      then have "TFile_Open w'' f = TFile_Open w' f"
        unfolding w''_def by (rule TFile_Open_Write)
      also have "\<dots> = TFile_Open w f" by (simp add: w'_def)
      also from f Cons.prems(3) have "\<dots> = TFile_Open w0 f" by simp
      finally show "TFile_Open w'' f = TFile_Open w0 f" .
    qed
    have 4: "files w'' out = Some (RootFile (outks @ [k']))"
      by (simp add: w'')
    have mk: "merged_key M w0 firstFile ?rest key = k'"
      by (simp add: merged_key_def g k'_def h'_def)
    have dk: "diagnostics w0 ?rest key = concat (map (diagnostic w0 (GetName key)) ?rest)"
      by (simp add: diagnostics_def)
    have "merge_keys M firstFile fileNames keys w'' =
           Inr (w''\<lparr>files := (files w'')(out \<mapsto> RootFile
                    ((outks @ [k']) @ map (merged_key M w0 firstFile ?rest) (filter recognized keys))),
                  cerr := cerr w'' @ concat (map (diagnostics w0 ?rest) (filter recognized keys))\<rparr>)"
      using Cons.prems(1,2) 3 4 5 by (rule Cons.IH)
    also have "\<dots> = Inr (w\<lparr>files := (files w)(out \<mapsto> RootFile
                    (outks @ map (merged_key M w0 firstFile ?rest) (filter recognized (key # keys)))),
                  cerr := cerr w @ concat (map (diagnostics w0 ?rest) (filter recognized (key # keys)))\<rparr>)"
      using True by (simp add: w'' w'_def mk dk)
    finally show ?thesis
      unfolding step .
  qed
qed


lemma merge_keys_names:
  assumes "merge_keys M ff fn keys w = Inr w'"
    and "files w ''merged_AnalysisResults.root'' = Some (RootFile ks0)"
    and "set keys \<subseteq> set ff"
  shows "\<exists>ks. files w' ''merged_AnalysisResults.root'' = Some (RootFile (ks0 @ ks))
           \<and> map GetName ks = map GetName (filter recognized keys)"
  using assms
proof (induction keys arbitrary: w ks0)
  case Nil
  then show ?case by simp
next
  case (Cons key keys)
  let ?out = "''merged_AnalysisResults.root''"
  from Cons.prems(3) have sub: "set keys \<subseteq> set ff" and mem: "key \<in> set ff"
    by simp_all
  show ?case
  proof (cases "recognized key")
    case False
    from Cons.prems(1) have "merge_keys M ff fn keys w = Inr w'"
      unfolding merge_keys_skip [OF False] .
    from Cons.IH [OF this Cons.prems(2) sub] False show ?thesis by simp
  next
    case True
    from mem have "Get ff (GetName key) \<noteq> None" by (rule Get_member)
    then obtain obj where obj: "Get ff (GetName key) = Some obj" by blast
    from True have c: "\<not> (GetClassName key \<noteq> ''TH1F'' \<and> GetClassName key \<noteq> ''TH1D''
              \<and> GetClassName key \<noteq> ''TH2D'')"
      unfolding recognized_def by blast
    from Cons.prems(1) obtain cls h where o: "obj = TH1 cls h"
      by (cases obj) (simp_all only: merge_keys.simps Let_def if_not_P [OF c] obj
          option.case TObject.case sum.distinct)
    from Cons.prems(1) obtain w1 h1 where af: "add_files M (GetName key) (tl fn) w h = Inr (w1, h1)"
      by (cases "add_files M (GetName key) (tl fn) w h")
        (auto simp only: merge_keys.simps Let_def if_not_P [OF c] obj o
          option.case TObject.case sum.case sum.distinct)
    let ?k' = "\<lparr>GetName = GetName key, ReadObj = TH1 cls h1\<rparr>"
    from obj o have g: "Get ff (GetName key) = Some (TH1 cls h)" by simp
    from Cons.prems(1) have run: "merge_keys M ff fn keys (Write ?out ?k' w1) = Inr w'"
      unfolding merge_keys_write [OF True g af] .
    from add_files_files [OF af] Cons.prems(2)
    have "files (Write ?out ?k' w1) ?out = Some (RootFile (ks0 @ [?k']))"
      by (simp add: Write_def)
    from Cons.IH [OF run this sub] True show ?thesis by auto
  qed
qed

lemma histFileName_not_merged: "histFileName i \<noteq> ''merged_AnalysisResults.root''"
  by (simp add: histFileName_def)

lemma merged_notin_histFileNames:
  "''merged_AnalysisResults.root'' \<notin> set (map histFileName is)"
  by (auto simp: histFileName_not_merged [symmetric])

lemma mergemacro_files_ok:
  assumes "''merged_AnalysisResults.root'' \<notin> set (fileName0 # rest)"
    and "TFile_Open w fileName0 = Some firstFile"
    and "\<forall>k\<in>set firstFile. recognized k \<longrightarrow> mergeable w firstFile rest k"
  shows "mergemacro_files M (fileName0 # rest) w =
           Inr (w\<lparr>files := (files w)(''merged_AnalysisResults.root'' \<mapsto> RootFile
                    (map (merged_key M w firstFile rest) (filter recognized firstFile))),
                  cerr := cerr w @ concat (map (diagnostics w rest) (filter recognized firstFile))\<rparr>)"
proof -
  define out where "out = ''merged_AnalysisResults.root''"
  define w1 where "w1 = RECREATE out w"
  have 1: "out = ''merged_AnalysisResults.root''" by (simp add: out_def)
  have 2: "out \<notin> set (tl (fileName0 # rest))" using assms(1) by (simp add: out_def)
  have 3: "\<forall>f\<in>set (tl (fileName0 # rest)). TFile_Open w1 f = TFile_Open w f"
    using 2 by (auto simp: w1_def TFile_Open_RECREATE)
  have 4: "files w1 out = Some (RootFile [])"
    by (simp add: w1_def RECREATE_def)
  have 5: "\<forall>k\<in>set firstFile. recognized k \<longrightarrow> mergeable w firstFile (tl (fileName0 # rest)) k"
    using assms(3) by simp
  have o: "TFile_Open w1 fileName0 = Some firstFile"
    using assms(1,2) by (auto simp: w1_def out_def TFile_Open_RECREATE)
  have "mergemacro_files M (fileName0 # rest) w = merge_keys M firstFile (fileName0 # rest) firstFile w1"
    using o by (simp add: mergemacro_files_def w1_def out_def)
  also note merge_keys_ok [OF 1 2 3 4 5]
  finally show ?thesis
    by (simp add: w1_def out_def RECREATE_def)
qed


lemma mergemacro_range_files:
  assumes "start \<le> end" and "end < INT_MAX"
  shows "mergemacro_range M start end w =
           mergemacro_files M (histFileName start # map histFileName [start + 1..end]) w"
  using assms by (simp add: mergemacro_range_def histFileNames_ok upto_rec1)

lemma mergemacro_range_overflow:
  "start \<le> end \<Longrightarrow> INT_MAX \<le> end \<Longrightarrow> mergemacro_range M start end w = Inl (SignedOverflow, w)"
  by (simp add: mergemacro_range_def histFileNames_overflow)


subsection \<open>A worked instance\<close>

lemma histFileName_0: "histFileName 0 = ''AnalysisResults0.root''"
  by (simp add: histFileName_def to_string_def digits.simps digit_def)

lemma histFileName_1: "histFileName 1 = ''AnalysisResults1.root''"
  by (simp add: histFileName_def to_string_def digits.simps digit_def)

lemma histFileName_2: "histFileName 2 = ''AnalysisResults2.root''"
  by (simp add: histFileName_def to_string_def digits.simps digit_def)

lemma later_names_1_1: "map histFileName [1..1] = [''AnalysisResults1.root'']"
  by (simp add: histFileName_1)

lemma later_names_1_2:
  "map histFileName [1..2] = [''AnalysisResults1.root'', ''AnalysisResults2.root'']"
  by (simp add: upto_1_2 histFileName_1 histFileName_2)

lemma directory_open_0: "TFile_Open directory (histFileName 0) = Some run0"
  by (simp add: histFileName_0 TFile_Open_def directory_def)

lemma directory_open_1: "TFile_Open directory (histFileName 1) = Some run1"
  by (simp add: histFileName_1 TFile_Open_def directory_def)

lemmas directory_run =
  mergemacro_files_def directory_def RECREATE_def TFile_Open_def run0_def run1_def run2_def
  GetClassName.simps Get_def consistent_def Add_def log_cerr_def Write_def Let_def
  bin_contents_def lookup_def

lemma directory_merged:
  "mergemacro_range gives_up 0 1 directory =
     Inr (directory\<lparr>files := (files directory)(''merged_AnalysisResults.root'' \<mapsto> RootFile
            [\<lparr>GetName = ''hnevent'',
              ReadObj = TH1 ''TH1D'' \<lparr>axes = [[0, 1]], cells = [0, 8, 0], fEntries = 8\<rparr>\<rparr>,
             \<lparr>GetName = ''hDijetMass'',
              ReadObj = TH1 ''TH1D'' \<lparr>axes = [[40, 45, 55]], cells = [1, 2, 0, 4], fEntries = 7\<rparr>\<rparr>]),
          cerr := [''Histogram hDijetMass not found in file AnalysisResults1.root'']\<rparr>)"
proof -
  have "mergemacro_range gives_up 0 1 directory =
          mergemacro_files gives_up [''AnalysisResults0.root'', ''AnalysisResults1.root''] directory"
    by (simp add: mergemacro_range_files INT_MAX_def histFileName_0 histFileName_1)
  then show ?thesis
    by (simp add: directory_run)
qed

lemma run0_mergeable:
  "\<forall>k\<in>set run0. recognized k \<longrightarrow> mergeable directory run0 (map histFileName [0 + 1..2]) k"
  by (simp add: later_names_1_2 run0_def run1_def run2_def recognized_def GetClassName.simps
      mergeable_def addable_def lookup_def TFile_Open_def directory_def)

lemma directory_contributions:
  "contributions directory ''hDijetMass'' (map histFileName [0 + 1..2]) =
     [\<lparr>axes = [[40, 45, 55]], cells = [0, 1, 1, 0], fEntries = 2\<rparr>]"
  by (simp add: later_names_1_2 contribution_def lookup_def TFile_Open_def directory_def
      run1_def run2_def)

subsection \<open>Claim C3\<close>

lemma diagnostic_missing:
  "TFile_Open w f = Some file \<Longrightarrow> Get file n = None \<Longrightarrow>
   ''Histogram '' @ n @ '' not found in file '' @ f \<in> set (diagnostic w n f)"
  by (simp add: diagnostic_def)

lemma contribution_missing:
  "TFile_Open w f = Some file \<Longrightarrow> Get file n = None \<Longrightarrow> contribution w n f = []"
  by (simp add: contribution_def lookup_def)

text \<open>
  Claim C3. Take a range of \<^verbatim>\<open>int\<close>s whose upper end is not the largest \<^verbatim>\<open>int\<close>, and let the
  first file hold uniquely named keys. Let the merger get through every recognized key
  of it (what the first file and the later files hold under that name is a histogram,
  where they hold anything), let \<open>key\<close> be a recognized histogram \<open>h\<close> of the first file
  whose binning is that of the histograms of its name in the later files, and let the later
  file \<open>k\<close> open and lack that name. Then the merge completes. The merged histogram of
  that name has the binning of \<open>h\<close>; each of its cells is the cell of \<open>h\<close> plus the cells of
  the histograms of that name that the later files hold, added in file order; its entry
  count is accumulated over the same histograms; file \<open>k\<close> is not among them; and
  \<^verbatim>\<open>std::cerr\<close> holds the line naming the histogram and file \<open>k\<close>.
\<close>

theorem missing_histogram_tolerated:
  fixes w :: "'a::{plus,abs} world"
  assumes "INT_MIN \<le> start" and "start \<le> end" and "end < INT_MAX"
    and "TFile_Open w (histFileName start) = Some firstFile"
    and "distinct (map GetName firstFile)"
    and "\<forall>k\<in>set firstFile. recognized k \<longrightarrow>
           mergeable w firstFile (map histFileName [start + 1..end]) k"
    and "key \<in> set firstFile" and "recognized key" and "ReadObj key = TH1 cls h"
    and "\<forall>h1\<in>set (contributions w (GetName key) (map histFileName [start + 1..end])).
           consistent h h1"
    and "start < k" and "k \<le> end"
    and "TFile_Open w (histFileName k) = Some file" and "Get file (GetName key) = None"
  shows "\<exists>w' hm. mergemacro_range M start end w = Inr w'
           \<and> lookup w' ''merged_AnalysisResults.root'' (GetName key) = Some (TH1 cls hm)
           \<and> axes hm = axes h
           \<and> cells hm =
               map (\<lambda>j. foldl (+) (cells h ! j)
                          (map (\<lambda>h1. cells h1 ! j)
                             (contributions w (GetName key) (map histFileName [start + 1..end]))))
                 [0..<length (cells h)]
           \<and> fEntries hm =
               foldl (\<lambda>e h1. \<bar>e + fEntries h1\<bar>) (fEntries h)
                 (contributions w (GetName key) (map histFileName [start + 1..end]))
           \<and> contribution w (GetName key) (histFileName k) = []
           \<and> ''Histogram '' @ GetName key @ '' not found in file '' @ histFileName k \<in> set (cerr w')"
proof -
  let ?rest = "map histFileName [start + 1..end]"
  let ?out = "''merged_AnalysisResults.root''"
  let ?others = "contributions w (GetName key) ?rest"
  let ?hm = "foldl (Add M) h ?others"
  let ?w' = "w\<lparr>files := (files w)(?out \<mapsto> RootFile
                    (map (merged_key M w firstFile ?rest) (filter recognized firstFile))),
                  cerr := cerr w @ concat (map (diagnostics w ?rest) (filter recognized firstFile))\<rparr>"
  have notin: "?out \<notin> set (histFileName start # ?rest)"
    using merged_notin_histFileNames [of "start # [start + 1..end]"] by simp
  have "mergemacro_files M (histFileName start # ?rest) w = Inr ?w'"
    using notin assms(4,6) by (rule mergemacro_files_ok)
  then have run: "mergemacro_range M start end w = Inr ?w'"
    unfolding mergemacro_range_files [OF assms(2,3)] .
  have g: "Get firstFile (GetName key) = Some (TH1 cls h)"
    using Get_distinct [OF assms(5,7)] assms(9) by simp
  have "lookup ?w' ?out (GetName key) =
          Get (map (merged_key M w firstFile ?rest) (filter recognized firstFile)) (GetName key)"
    by (simp add: lookup_def TFile_Open_def)
  also have "\<dots> = Some (TH1 cls ?hm)"
    using assms(7,8) g by (rule Get_merged)
  finally have merged: "lookup ?w' ?out (GetName key) = Some (TH1 cls ?hm)" .
  note sums = foldl_Add_consistent [OF assms(10), of M]
  have kin: "histFileName k \<in> set ?rest"
    using assms(11,12) by simp
  have "''Histogram '' @ GetName key @ '' not found in file '' @ histFileName k
      \<in> set (diagnostic w (GetName key) (histFileName k))"
    using assms(13,14) by (rule diagnostic_missing)
  with kin have "''Histogram '' @ GetName key @ '' not found in file '' @ histFileName k
      \<in> set (diagnostics w ?rest key)"
    unfolding diagnostics_def by (rule in_concat_map)
  moreover have "key \<in> set (filter recognized firstFile)"
    using assms(7,8) by simp
  ultimately have "''Histogram '' @ GetName key @ '' not found in file '' @ histFileName k
      \<in> set (concat (map (diagnostics w ?rest) (filter recognized firstFile)))"
    by (intro in_concat_map)
  then have logged: "''Histogram '' @ GetName key @ '' not found in file '' @ histFileName k
      \<in> set (cerr ?w')"
    by simp
  have none: "contribution w (GetName key) (histFileName k) = []"
    using assms(13,14) by (rule contribution_missing)
  from sums have s1: "axes ?hm = axes h"
    and s2: "cells ?hm = map (\<lambda>j. foldl (+) (cells h ! j) (map (\<lambda>h1. cells h1 ! j) ?others))
                           [0..<length (cells h)]"
    and s3: "fEntries ?hm = foldl (\<lambda>e h1. \<bar>e + fEntries h1\<bar>) (fEntries h) ?others"
    by blast+
  show ?thesis
    using run merged s1 s2 s3 none logged by (intro exI [of _ ?w'] exI [of _ ?hm] conjI)
qed

theorem missing_histogram_tolerated_witness:
  "\<exists>w' hm. mergemacro_range gives_up 0 2 directory = Inr w'
     \<and> Get run0 ''hDijetMass'' =
         Some (TH1 ''TH1D'' \<lparr>axes = [[40, 45, 55]], cells = [1, 2, 0, 4], fEntries = 7\<rparr>)
     \<and> Get run1 ''hDijetMass'' = None
     \<and> Get run2 ''hDijetMass'' =
         Some (TH1 ''TH1D'' \<lparr>axes = [[40, 45, 55]], cells = [0, 1, 1, 0], fEntries = 2\<rparr>)
     \<and> lookup w' ''merged_AnalysisResults.root'' ''hDijetMass'' = Some (TH1 ''TH1D'' hm)
     \<and> axes hm = [[40, 45, 55]] \<and> cells hm = [1, 3, 1, 4] \<and> fEntries hm = 9
     \<and> ''Histogram hDijetMass not found in file AnalysisResults1.root'' \<in> set (cerr w')"
proof -
  define h :: "int hist" where "h = \<lparr>axes = [[40, 45, 55]], cells = [1, 2, 0, 4], fEntries = 7\<rparr>"
  define key :: "int TKey" where "key = \<lparr>GetName = ''hDijetMass'', ReadObj = TH1 ''TH1D'' h\<rparr>"
  have n: "GetName key = ''hDijetMass''"
    by (simp add: key_def)
  have b: "INT_MIN \<le> 0" "(0::int) \<le> 2" "2 < INT_MAX" "(0::int) < 1" "(1::int) \<le> 2"
    by (simp_all add: INT_MIN_def INT_MAX_def)
  have 5: "distinct (map GetName run0)"
    by (simp add: run0_def)
  have 7: "key \<in> set run0"
    by (simp add: run0_def key_def h_def)
  have 8: "recognized key"
    by (simp add: recognized_def GetClassName.simps key_def)
  have 9: "ReadObj key = TH1 ''TH1D'' h"
    by (simp add: key_def)
  have 10: "\<forall>h1\<in>set (contributions directory (GetName key) (map histFileName [0 + 1..2])).
      consistent h h1"
    unfolding n directory_contributions by (simp add: consistent_def h_def)
  have 14: "Get run1 (GetName key) = None"
    by (simp add: run1_def key_def)
  have g: "Get run0 ''hDijetMass'' = Some (TH1 ''TH1D'' h)"
    "Get run2 ''hDijetMass'' =
       Some (TH1 ''TH1D'' \<lparr>axes = [[40, 45, 55]], cells = [0, 1, 1, 0], fEntries = 2\<rparr>)"
    by (simp_all add: run0_def run2_def h_def)
  have up: "[0..<4] = [0, 1, 2, 3]"
    by (simp add: upt_rec)
  from missing_histogram_tolerated [of 0 2 directory run0 key "''TH1D''" h 1 run1 gives_up,
      OF b(1-3) directory_open_0 5 run0_mergeable 7 8 9 10 b(4,5) directory_open_1 14]
  obtain w' hm where "mergemacro_range gives_up 0 2 directory = Inr w'"
    and "lookup w' ''merged_AnalysisResults.root'' ''hDijetMass'' = Some (TH1 ''TH1D'' hm)"
    and "axes hm = [[40, 45, 55]]" and "cells hm = [1, 3, 1, 4]" and "fEntries hm = 9"
    and "''Histogram hDijetMass not found in file AnalysisResults1.root'' \<in> set (cerr w')"
    unfolding n directory_contributions by (auto simp: h_def up histFileName_1)
  with g 14 show ?thesis
    unfolding n h_def by blast
qed

subsection \<open>Claim C5\<close>

lemma completed_run_names:
  assumes "mergemacro_range M start end w = Inr w'"
  shows "\<exists>firstFile ks. TFile_Open w (histFileName start) = Some firstFile
           \<and> files w' ''merged_AnalysisResults.root'' = Some (RootFile ks)
           \<and> map GetName ks = map GetName (filter recognized firstFile)"
proof -
  let ?out = "''merged_AnalysisResults.root''"
  let ?w1 = "RECREATE ?out w"
  from assms obtain fileNames where names: "histFileNames start end = Inr fileNames"
    and files: "mergemacro_files M fileNames w = Inr w'"
    by (cases "histFileNames start end") (auto simp: mergemacro_range_def)
  from names have all: "fileNames = map histFileName [start..end]"
    by (rule histFileNames_Inr)
  from files have "fileNames \<noteq> []"
    by (auto simp: mergemacro_files_def)
  with all have le: "start \<le> end"
    by (cases "start \<le> end") simp_all
  with all have cons: "fileNames = histFileName start # map histFileName [start + 1..end]"
    by (simp add: upto_rec1)
  from files obtain firstFile where o1: "TFile_Open ?w1 (histFileName start) = Some firstFile"
    and run: "merge_keys M firstFile fileNames firstFile ?w1 = Inr w'"
    by (auto simp: mergemacro_files_def cons Let_def split: option.splits)
  from o1 have o: "TFile_Open w (histFileName start) = Some firstFile"
    by (simp add: TFile_Open_RECREATE histFileName_not_merged)
  have "files ?w1 ?out = Some (RootFile [])"
    by (simp add: RECREATE_def)
  from merge_keys_names [OF run this] o show ?thesis
    by auto
qed

text \<open>
  Claim C5. Whenever the histogram merger completes on a first file with uniquely named
  keys, the names of the keys of its output are the names of the keys of the first file
  whose class is \<^verbatim>\<open>TH1F\<close>, \<^verbatim>\<open>TH1D\<close> or \<^verbatim>\<open>TH2D\<close>, in the same order: a key of any other class
  leaves no entry. (The names are assumed unique because ROOT would order the cycles of a
  repeated name otherwise than the model does; the proof does not use it.)
\<close>

theorem only_recognized_kinds_merged:
  assumes "mergemacro_range M start end w = Inr w'"
    and "TFile_Open w (histFileName start) = Some firstFile"
    and "distinct (map GetName firstFile)"
  shows "\<exists>ks. files w' ''merged_AnalysisResults.root'' = Some (RootFile ks)
           \<and> map GetName ks = map GetName (filter recognized firstFile)"
  using completed_run_names [OF assms(1)] assms(2) by auto

theorem only_recognized_kinds_merged_witness:
  "mergemacro_range gives_up 0 1 directory =
     Inr (directory\<lparr>files := (files directory)(''merged_AnalysisResults.root'' \<mapsto> RootFile
            [\<lparr>GetName = ''hnevent'',
              ReadObj = TH1 ''TH1D'' \<lparr>axes = [[0, 1]], cells = [0, 8, 0], fEntries = 8\<rparr>\<rparr>,
             \<lparr>GetName = ''hDijetMass'',
              ReadObj = TH1 ''TH1D'' \<lparr>axes = [[40, 45, 55]], cells = [1, 2, 0, 4], fEntries = 7\<rparr>\<rparr>]),
          cerr := [''Histogram hDijetMass not found in file AnalysisResults1.root'']\<rparr>)
   \<and> TFile_Open directory (histFileName 0) = Some run0
   \<and> distinct (map GetName run0)
   \<and> map GetName run0 = [''hnevent'', ''hDijetMass'', ''dijetNtuple'']
   \<and> map GetName (filter recognized run0) = [''hnevent'', ''hDijetMass'']"
proof -
  have d: "distinct (map GetName run0)"
    by (simp add: run0_def)
  have f: "map GetName (filter recognized run0) = [''hnevent'', ''hDijetMass'']"
    by (simp add: run0_def recognized_def GetClassName.simps)
  from only_recognized_kinds_merged [OF directory_merged directory_open_0 d] f
  show ?thesis
    by (simp add: directory_merged directory_open_0 d) (simp add: run0_def)
qed

subsection \<open>Claim C6\<close>

text \<open>
  Claim C6. For a range of one index, an \<^verbatim>\<open>int\<close> other than the largest, the merged table
  holds exactly the entries of that source's table, and the merged histogram file holds
  exactly the recognized histograms of that source (name, class, binning, cell contents
  and entry count unchanged), when the source's keys are uniquely named and its keys of a
  recognized class hold histograms.
\<close>

theorem single_source_round_trip:
  assumes "INT_MIN \<le> i" and "i < INT_MAX"
    and "has_table w (tupleFileName i) ''dijetNtuple'' t"
    and "TFile_Open w (histFileName i) = Some firstFile"
    and "distinct (map GetName firstFile)"
    and "\<forall>k\<in>set firstFile. recognized k \<longrightarrow> (\<exists>c h. ReadObj k = TH1 c h)"
  shows "mergetuple_range i i w =
           Inr (w\<lparr>files := (files w)(''merged_tuple.root'' \<mapsto>
                  RootFile [\<lparr>GetName = ''mergedNtuple'', ReadObj = TNtuple t\<rparr>])\<rparr>)
         \<and> mergemacro_range M i i w =
           Inr (w\<lparr>files := (files w)(''merged_AnalysisResults.root'' \<mapsto>
                  RootFile (filter recognized firstFile))\<rparr>)"
proof
  have "\<forall>j\<in>set [i..i]. has_table w (tupleFileName j) ''dijetNtuple'' ((\<lambda>_. t) j)"
    using assms(3) by simp
  from mergetuple_range_ok [OF assms(2) this]
  show "mergetuple_range i i w =
           Inr (w\<lparr>files := (files w)(''merged_tuple.root'' \<mapsto>
                  RootFile [\<lparr>GetName = ''mergedNtuple'', ReadObj = TNtuple t\<rparr>])\<rparr>)"
    by simp
next
  let ?out = "''merged_AnalysisResults.root''"
  have names: "mergemacro_range M i i w = mergemacro_files M [histFileName i] w"
    using assms(2) by (simp add: mergemacro_range_files)
  have notin: "?out \<notin> set [histFileName i]"
    using merged_notin_histFileNames [of "[i]"] by simp
  have get: "Get firstFile (GetName k) = Some (ReadObj k)" if "k \<in> set firstFile" for k
    using assms(5) that by (rule Get_distinct)
  have m: "\<forall>k\<in>set firstFile. recognized k \<longrightarrow> mergeable w firstFile [] k"
    using assms(6) get by (fastforce simp: mergeable_def)
  have same: "merged_key M w firstFile [] k = k" if "k \<in> set firstFile" "recognized k" for k
  proof -
    from that assms(6) obtain c h where "ReadObj k = TH1 c h" by blast
    with get [OF that(1)] show ?thesis
      by (simp add: merged_key_def)
  qed
  have keys: "map (merged_key M w firstFile []) (filter recognized firstFile) = filter recognized firstFile"
    by (rule map_idI) (simp add: same)
  have "mergemacro_files M [histFileName i] w =
           Inr (w\<lparr>files := (files w)(?out \<mapsto> RootFile
                    (map (merged_key M w firstFile []) (filter recognized firstFile))),
                  cerr := cerr w @ concat (map (diagnostics w []) (filter recognized firstFile))\<rparr>)"
    using notin assms(4) m by (rule mergemacro_files_ok)
  then show "mergemacro_range M i i w =
           Inr (w\<lparr>files := (files w)(?out \<mapsto> RootFile (filter recognized firstFile))\<rparr>)"
    unfolding names by (simp add: keys diagnostics_def)
qed

theorem single_source_round_trip_witness:
  "INT_MIN \<le> 1 \<and> 1 < INT_MAX
   \<and> mergetuple_range 1 1 directory =
     Inr (directory\<lparr>files := (files directory)(''merged_tuple.root'' \<mapsto>
            RootFile [\<lparr>GetName = ''mergedNtuple'', ReadObj = TNtuple table1\<rparr>])\<rparr>)
   \<and> mergemacro_range gives_up 1 1 directory =
     Inr (directory\<lparr>files := (files directory)(''merged_AnalysisResults.root'' \<mapsto>
            RootFile [\<lparr>GetName = ''hnevent'',
              ReadObj = TH1 ''TH1D'' \<lparr>axes = [[0, 1]], cells = [0, 3, 0], fEntries = 3\<rparr>\<rparr>])\<rparr>)"
proof -
  have b: "INT_MIN \<le> 1" "1 < INT_MAX"
    by (simp_all add: INT_MIN_def INT_MAX_def)
  have 3: "distinct (map GetName run1)"
    by (simp add: run1_def)
  have 4: "\<forall>k\<in>set run1. recognized k \<longrightarrow> (\<exists>c h. ReadObj k = TH1 c h)"
    by (simp add: run1_def recognized_def GetClassName.simps)
  have f: "filter recognized run1 = [\<lparr>GetName = ''hnevent'',
              ReadObj = TH1 ''TH1D'' \<lparr>axes = [[0, 1]], cells = [0, 3, 0], fEntries = 3\<rparr>\<rparr>]"
    by (simp add: run1_def recognized_def GetClassName.simps)
  from single_source_round_trip [OF b run1_has_table directory_open_1 3 4, of gives_up] b
  show ?thesis
    by (simp only: f simp_thms)
qed

subsection \<open>Claim C7\<close>

lemma mergetuple_range_missing:
  assumes "\<exists>i\<in>set [start..end]. lookup w (tupleFileName i) ''dijetNtuple'' = None"
  shows "\<exists>e w'. mergetuple_range start end w = Inl (e, w')"
proof -
  let ?w1 = "RECREATE ''merged_tuple.root'' w"
  have "lookup ?w1 (tupleFileName i) n = lookup w (tupleFileName i) n" for i n
    by (simp add: lookup_def TFile_Open_RECREATE tupleFileName_not_merged)
  with assms have "\<exists>i\<in>set [start..end]. lookup ?w1 (tupleFileName i) ''dijetNtuple'' = None"
    by simp
  from mergetuple_loop_missing [OF this, of "[]"] show ?thesis
    by (auto simp: mergetuple_range_def)
qed

text \<open>
  Claim C7. When the first file of a non-empty range does not open, the histogram merger
  writes the diagnostic of line 16 and then, at line 20, calls \<^verbatim>\<open>GetListOfKeys\<close> through the
  null pointer: the run stops with the output file created and empty. (The upper end of
  the range is not the largest \<^verbatim>\<open>int\<close>, for which line 6 overflows before any file is
  opened.) A later file that does not open is reported and skipped
  (\<open>add_files_unopened\<close>), and the tuple merger stops at a source without a table
  (\<open>mergetuple_range_missing\<close>).
\<close>

theorem first_source_unopened:
  assumes "start \<le> end" and "end < INT_MAX"
    and "TFile_Open w (histFileName start) = None"
  shows "mergemacro_range M start end w =
           Inl (NullDereference,
                w\<lparr>files := (files w)(''merged_AnalysisResults.root'' \<mapsto> RootFile []),
                  cerr := cerr w @ [''Error opening file '' @ histFileName start]\<rparr>)"
proof -
  have "TFile_Open (RECREATE ''merged_AnalysisResults.root'' w) (histFileName start) = None"
    using assms(3) by (simp add: TFile_Open_RECREATE histFileName_not_merged)
  then show ?thesis
    unfolding mergemacro_range_files [OF assms(1,2)]
    by (simp add: mergemacro_files_def log_cerr_def RECREATE_def)
qed

theorem first_source_unopened_witness:
  "(0::int) \<le> 99 \<and> 99 < INT_MAX
   \<and> TFile_Open \<lparr>files = Map.empty, cerr = [], cout = []\<rparr> (histFileName 0) = None
   \<and> mergemacro gives_up \<lparr>files = Map.empty, cerr = [], cout = []\<rparr> =
       Inl (NullDereference,
            \<lparr>files = [''merged_AnalysisResults.root'' \<mapsto> RootFile []],
             cerr = [''Error opening file AnalysisResults0.root''], cout = []\<rparr> :: int world)"
proof -
  have h: "TFile_Open \<lparr>files = Map.empty, cerr = [], cout = []\<rparr> (histFileName 0) = None"
    by (simp add: TFile_Open_def)
  have b: "99 < INT_MAX"
    by (simp add: INT_MAX_def)
  from first_source_unopened [of 0 99 _ gives_up, OF _ b h] h b
  show ?thesis
    by (simp add: mergemacro_def histFileName_0)
qed

subsection \<open>Claim C8\<close>

text \<open>
  Claim C8. On an empty range (\<open>end < start\<close>) the tuple merger writes a table with no
  entries. The histogram merger does not produce an empty output: line 14 of mergemacro.C
  takes element 0 of the empty vector of file names, and the run stops there.
\<close>

theorem empty_range:
  assumes "end < start"
  shows "mergetuple_range start end w =
           Inr (w\<lparr>files := (files w)(''merged_tuple.root'' \<mapsto>
                  RootFile [\<lparr>GetName = ''mergedNtuple'', ReadObj = TNtuple []\<rparr>])\<rparr>)
         \<and> mergemacro_range M start end w =
           Inl (EmptyVector, w\<lparr>files := (files w)(''merged_AnalysisResults.root'' \<mapsto> RootFile [])\<rparr>)"
  using assms
  by (simp add: mergetuple_range_def mergetuple_loop.simps [of start] mergemacro_range_def
      mergemacro_files_def histFileNames_Nil RECREATE_def Write_def)

theorem empty_range_witness:
  "(0::int) < 1
   \<and> mergetuple_range 1 0 directory =
       Inr (directory\<lparr>files := (files directory)(''merged_tuple.root'' \<mapsto>
              RootFile [\<lparr>GetName = ''mergedNtuple'', ReadObj = TNtuple []\<rparr>])\<rparr>)
   \<and> mergemacro_range gives_up 1 0 directory =
       Inl (EmptyVector,
            directory\<lparr>files := (files directory)(''merged_AnalysisResults.root'' \<mapsto> RootFile [])\<rparr>)"
  using empty_range [of 0 1 directory gives_up] by simp

subsection \<open>Claim C9\<close>

text \<open>
  Claim C9. Whatever was at the destination before the run (\<open>prior\<close>: nothing, a ROOT
  file or any other file) has no effect on the result of either merger: the world after
  the run, output artifact included, is the same as for any other prior content. (The
  upper end of the range is not the largest \<^verbatim>\<open>int\<close>, for which the histogram merger does not
  get as far as its output file.)
\<close>

theorem output_replaces_prior_content:
  assumes "end < INT_MAX"
  shows "mergetuple_range start end (w\<lparr>files := (files w)(''merged_tuple.root'' := prior)\<rparr>)
           = mergetuple_range start end w
         \<and> mergemacro_range M start end
               (w\<lparr>files := (files w)(''merged_AnalysisResults.root'' := prior)\<rparr>)
           = mergemacro_range M start end w"
  using assms
  by (simp add: mergetuple_range_def mergemacro_range_def histFileNames_ok mergemacro_files_def
      RECREATE_prior)

theorem output_replaces_prior_content_witness:
  "1 < INT_MAX
   \<and> files directory ''merged_tuple.root'' = Some (TextFile ''stale'')
   \<and> mergetuple_range 0 1 (directory\<lparr>files := (files directory)(''merged_tuple.root'' := None)\<rparr>)
       = mergetuple_range 0 1 directory
   \<and> files directory ''merged_AnalysisResults.root'' = None
   \<and> mergemacro_range gives_up 0 1
         (directory\<lparr>files := (files directory)(''merged_AnalysisResults.root'' \<mapsto>
            TextFile ''stale'')\<rparr>)
       = mergemacro_range gives_up 0 1 directory"
proof -
  have b: "1 < INT_MAX"
    by (simp add: INT_MAX_def)
  from output_replaces_prior_content [OF b, of 0 directory None gives_up]
    output_replaces_prior_content [OF b, of 0 directory "Some (TextFile ''stale'')" gives_up] b
  show ?thesis
    by (simp add: directory_def)
qed


section \<open>mergemacro.C: enumeration order and merging in steps\<close>













subsection \<open>Sums of weights\<close>










subsection \<open>Claim C4\<close>











section \<open>drawTuple.C: the exported text\<close>

lemma round_half_even_bound:
  assumes "0 < b"
  shows "\<bar>real (round_half_even a b) - real a / real b\<bar> \<le> 1 / 2"
proof -
  define q where "q = a div b"
  define r where "r = a mod b"
  define x where "x = real r / real b"
  have a: "real a = real q * real b + real r"
    unfolding q_def r_def by (metis div_mult_mod_eq of_nat_add of_nat_mult)
  have rb: "r < b"
    unfolding r_def using assms by simp
  have b: "0 < real b"
    using assms by simp
  have quot: "real a / real b = real q + x"
    unfolding x_def using b by (simp add: a field_simps)
  have x0: "0 \<le> x" and x1: "x < 1"
    unfolding x_def using rb b by simp_all
  consider "2 * r < b" | "b < 2 * r" | "2 * r = b" by linarith
  then show ?thesis
  proof cases
    case 1
    then have n: "real (round_half_even a b) = real q"
      by (simp add: round_half_even_def q_def r_def Let_def)
    from 1 b have "x \<le> 1 / 2"
      unfolding x_def by (simp add: field_simps)
    with x0 show ?thesis
      unfolding n quot by linarith
  next
    case 2
    then have n: "real (round_half_even a b) = real q + 1"
      by (simp add: round_half_even_def q_def r_def Let_def)
    from 2 b have "1 / 2 \<le> x"
      unfolding x_def by (simp add: field_simps)
    with x1 show ?thesis
      unfolding n quot by linarith
  next
    case 3
    then have n: "real (round_half_even a b) = real q \<or> real (round_half_even a b) = real q + 1"
      by (simp add: round_half_even_def q_def r_def Let_def)
    from 3 b have "x = 1 / 2"
      unfolding x_def by (simp add: field_simps)
    with n show ?thesis
      unfolding quot by auto
  qed
qed

lemma put_float_two_decimals:
  assumes "isfinite x"
  shows "two_decimals x (put_float x)"
proof -
  let ?n = "round_half_even (100 * scaled x) (2 ^ 149)"
  have "\<bar>real ?n - real (100 * scaled x) / real (2 ^ 149 :: nat)\<bar> \<le> 1 / 2"
    by (rule round_half_even_bound) simp
  then have "\<bar>real ?n / 100 - magnitude x\<bar> \<le> 1 / 200"
    by (simp add: magnitude_def field_simps)
  with assms show ?thesis
    unfolding two_decimals_def put_float_def by auto
qed

lemma split_lines_line:
  "endl \<notin> set l \<Longrightarrow> split_lines cur (l @ endl # rest) = (cur @ l) # split_lines [] rest"
  by (induction l arbitrary: cur) auto

lemma split_lines_concat:
  "\<forall>l\<in>set ls. endl \<notin> set l \<Longrightarrow> split_lines [] (concat (map (\<lambda>l. l @ [endl]) ls)) = ls"
  by (induction ls) (simp_all add: split_lines_line)

lemma digit_in_digits: "d < 10 \<Longrightarrow> digit d \<in> set ''0123456789''"
  unfolding digit_def by (rule nth_mem) simp

lemma set_digits: "set (digits n) \<subseteq> set ''0123456789''"
proof (induction n rule: digits.induct)
  case (1 n)
  show ?case
  proof (cases "n < 10")
    case True
    then show ?thesis
      using digit_in_digits [of n] by (simp add: digits.simps [of n])
  next
    case False
    have "n mod 10 < 10" by simp
    from digit_in_digits [OF this] 1 [OF False] False show ?thesis
      by (simp add: digits.simps [of n])
  qed
qed

lemma endl_notin_digits: "endl \<notin> set (digits n)"
  using set_digits [of n] by (auto simp: endl_def)

lemma endl_notin_to_string: "endl \<notin> set (to_string i)"
  using endl_notin_digits by (auto simp: to_string_def) (simp add: endl_def)

lemma endl_notin_digit: "d < 10 \<Longrightarrow> digit d \<noteq> endl"
  using digit_in_digits [of d] by (auto simp: endl_def)

lemma endl_notin_fixed_point_2: "endl \<notin> set (fixed_point_2 neg n)"
proof -
  have "digit (n div 10 mod 10) \<noteq> endl" "digit (n mod 10) \<noteq> endl"
    by (rule endl_notin_digit, simp)+
  then show ?thesis
    using endl_notin_digits [of "n div 100"]
    by (auto simp: fixed_point_2_def) (simp_all add: endl_def)
qed

lemma endl_notin_put_float: "endl \<notin> set (put_float x)"
  using endl_notin_fixed_point_2 by (auto simp: put_float_def) (simp_all add: endl_def)

lemma endl_notin_csv_line: "endl \<notin> set (csv_line u e)"
  using endl_notin_put_float endl_notin_to_string
  by (auto simp: csv_line_def) (simp_all add: endl_def)

lemma endl_notin_header: "endl \<notin> set header"
  by (simp add: header_def endl_def)

lemma write_entries_append:
  "write_entries u es csv = csv @ concat (map (\<lambda>l. l @ [endl]) (map (csv_line u) es))"
  by (induction es arbitrary: csv) simp_all

lemma lines_written:
  "lines_of (write_entries u es (header @ [endl])) = header # map (csv_line u) es"
proof -
  have "write_entries u es (header @ [endl]) =
          concat (map (\<lambda>l. l @ [endl]) (header # map (csv_line u) es))"
    by (simp add: write_entries_append)
  moreover have "\<forall>l\<in>set (header # map (csv_line u) es). endl \<notin> set l"
    by (auto simp: endl_notin_header endl_notin_csv_line)
  ultimately show ?thesis
    unfolding lines_of_def by (simp only: split_lines_concat)
qed

lemma drawTuple_ok:
  assumes "has_table w ''merged_tuple.root'' ''mergedNtuple'' t"
  shows "drawTuple u w =
           Inr (w\<lparr>files := (files w)(''dijet_data.csv'' \<mapsto>
                    TextFile (write_entries u t (header @ [endl]))),
                  cout := cout w @ [''Total number of entries: '' @ to_string (int (length t)),
                                    ''Data has been saved to dijet_data.csv'']\<rparr>)"
  using assms
  by (auto simp: drawTuple_def has_table_def lookup_def Let_def split: option.splits)

lemma point_in_fixed_point_2: "CHR ''.'' \<in> set (fixed_point_2 neg n)"
  by (simp add: fixed_point_2_def)

lemma as_specified_csv_line:
  assumes "exportable e"
  shows "as_specified e (csv_line u e)"
proof -
  from assms have td: "two_decimals (dijetMass e) (put_float (dijetMass e))"
    "two_decimals (leadingJetPt e) (put_float (leadingJetPt e))"
    "two_decimals (subleadingJetPt e) (put_float (subleadingJetPt e))"
    "two_decimals (deltaPhi e) (put_float (deltaPhi e))"
    "two_decimals (deltaEta e) (put_float (deltaEta e))"
    "two_decimals (x1 e) (put_float (x1 e))"
    "two_decimals (x2 e) (put_float (x2 e))"
    by (simp_all add: exportable_def put_float_two_decimals)
  from assms have ic: "int_cast u (eventNum e) = truncation (eventNum e)"
    "int_cast u (parton1Id e) = truncation (parton1Id e)"
    "int_cast u (parton2Id e) = truncation (parton2Id e)"
    by (simp_all add: exportable_def int_cast_def)
  show ?thesis
    unfolding as_specified_def csv_line_def ic
    by (intro exI conjI) (rule refl, (rule td)+)
qed

subsection \<open>A worked instance\<close>

lemmas float_fields =
  int_cast_def representable_def isfinite_def truncation_def sign_bit_def exponent_field_def
  fraction_field_def scaled_def put_float_def fixed_point_2_def round_half_even_def
  to_string_def digits.simps digit_def Let_def

lemma csv_line_entry_7:
  "csv_line u (entry 0x40E00000) = ''7,123.46,50.10,30.20,3.14,0.01,0.00,0.50,21,-1''"
  by (simp add: csv_line_def entry_def float_fields)

lemma csv_line_entry_9:
  "csv_line u (entry 0x41100000) = ''9,123.46,50.10,30.20,3.14,0.01,0.00,0.50,21,-1''"
  by (simp add: csv_line_def entry_def float_fields)

lemma exportable_entry_7: "exportable (entry 0x40E00000)"
  by (simp add: exportable_def entry_def float_fields)

lemma exportable_entry_9: "exportable (entry 0x41100000)"
  by (simp add: exportable_def entry_def float_fields)

lemma merged_directory_has_table:
  "has_table merged_directory ''merged_tuple.root'' ''mergedNtuple'' table0"
  by (simp add: has_table_def lookup_def TFile_Open_def merged_directory_def)

lemma entry_is_the_row_of_the_claim:
  "truncation (eventNum (entry 0x40E00000)) = 7
   \<and> scaled (eventNum (entry 0x40E00000)) mod 2 ^ 149 = 0
   \<and> \<bar>magnitude (dijetMass (entry n)) - 123.456\<bar> \<le> 1 / 2 ^ 18
   \<and> \<bar>magnitude (leadingJetPt (entry n)) - 50.1\<bar> \<le> 1 / 2 ^ 19
   \<and> \<bar>magnitude (subleadingJetPt (entry n)) - 30.2\<bar> \<le> 1 / 2 ^ 20
   \<and> \<bar>magnitude (deltaPhi (entry n)) - 3.14159\<bar> \<le> 1 / 2 ^ 23
   \<and> \<bar>magnitude (deltaEta (entry n)) - 0.01\<bar> \<le> 1 / 2 ^ 31
   \<and> \<bar>magnitude (x1 (entry n)) - 0.002\<bar> \<le> 1 / 2 ^ 33
   \<and> magnitude (x2 (entry n)) = 0.5
   \<and> truncation (parton1Id (entry n)) = 21
   \<and> scaled (parton1Id (entry n)) mod 2 ^ 149 = 0
   \<and> truncation (parton2Id (entry n)) = - 1
   \<and> scaled (parton2Id (entry n)) mod 2 ^ 149 = 0"
  by (simp add: entry_def magnitude_def truncation_def sign_bit_def scaled_def
      exponent_field_def fraction_field_def)

subsection \<open>Claim C10\<close>

text \<open>
  Claim C10. When the merged file holds the table \<^verbatim>\<open>mergedNtuple\<close> with entries \<open>t\<close>, the
  export succeeds and the lines of \<^verbatim>\<open>dijet_data.csv\<close> are the header followed by one line per
  entry, in stored order: one line more than the table has entries, and for an empty table
  the text is the header line alone. This holds whatever the processor delivers for an
  unrepresentable conversion.
\<close>

theorem export_header_then_one_line_per_entry:
  assumes "has_table w ''merged_tuple.root'' ''mergedNtuple'' t"
  shows "\<exists>w' csv. drawTuple u w = Inr w'
           \<and> files w' ''dijet_data.csv'' = Some (TextFile csv)
           \<and> lines_of csv = header # map (csv_line u) t
           \<and> length (lines_of csv) = length t + 1
           \<and> (t = [] \<longrightarrow> csv = header @ [endl])"
proof -
  let ?csv = "write_entries u t (header @ [endl])"
  have "lines_of ?csv = header # map (csv_line u) t"
    by (rule lines_written)
  moreover from this have "length (lines_of ?csv) = length t + 1"
    by simp
  moreover have "t = [] \<longrightarrow> ?csv = header @ [endl]"
    by simp
  moreover have "files (w\<lparr>files := (files w)(''dijet_data.csv'' \<mapsto> TextFile ?csv),
                  cout := cout w @ [''Total number of entries: '' @ to_string (int (length t)),
                                    ''Data has been saved to dijet_data.csv'']\<rparr>) ''dijet_data.csv''
      = Some (TextFile ?csv)"
    by simp
  ultimately show ?thesis
    unfolding drawTuple_ok [OF assms] by blast
qed

theorem export_header_then_one_line_per_entry_witness:
  "has_table merged_directory ''merged_tuple.root'' ''mergedNtuple'' table0
   \<and> (\<exists>w' csv. drawTuple cvttss2si merged_directory = Inr w'
         \<and> files w' ''dijet_data.csv'' = Some (TextFile csv)
         \<and> lines_of csv =
             [''Event,Mass,LeadPt,SubleadPt,DeltaPhi,DeltaEta,x1,x2,Parton1,Parton2'',
              ''7,123.46,50.10,30.20,3.14,0.01,0.00,0.50,21,-1'',
              ''9,123.46,50.10,30.20,3.14,0.01,0.00,0.50,21,-1'']
         \<and> length (lines_of csv) = 3)"
proof -
  from export_header_then_one_line_per_entry [OF merged_directory_has_table, of cvttss2si]
  have "\<exists>w' csv. drawTuple cvttss2si merged_directory = Inr w'
         \<and> files w' ''dijet_data.csv'' = Some (TextFile csv)
         \<and> lines_of csv =
             [''Event,Mass,LeadPt,SubleadPt,DeltaPhi,DeltaEta,x1,x2,Parton1,Parton2'',
              ''7,123.46,50.10,30.20,3.14,0.01,0.00,0.50,21,-1'',
              ''9,123.46,50.10,30.20,3.14,0.01,0.00,0.50,21,-1'']
         \<and> length (lines_of csv) = 3"
    by (auto simp: table0_def csv_line_entry_7 csv_line_entry_9 header_def)
  with merged_directory_has_table show ?thesis
    by (intro conjI)
qed

subsection \<open>Claim C2\<close>

text \<open>
  Claim C2 as stated, for every merged table, fails at the entry \<open>overflowing\<close>: the
  truncated event index is 2147483648, which no \<^verbatim>\<open>int\<close> holds, and the mass has no decimal
  numeral. With the x86-64 conversion the line starts with \<^verbatim>\<open>-2147483648,inf\<close>.
\<close>

theorem export_counterexample:
  "csv_line cvttss2si overflowing = ''-2147483648,inf,50.10,30.20,3.14,0.01,0.00,0.50,21,-1''
   \<and> to_string (truncation (eventNum overflowing)) = ''2147483648''
   \<and> \<not> two_decimals (dijetMass overflowing) (put_float (dijetMass overflowing))
   \<and> \<not> as_specified overflowing (csv_line cvttss2si overflowing)"
proof (intro conjI)
  show line: "csv_line cvttss2si overflowing =
      ''-2147483648,inf,50.10,30.20,3.14,0.01,0.00,0.50,21,-1''"
    by (simp add: csv_line_def overflowing_def entry_def cvttss2si_def float_fields)
  show t: "to_string (truncation (eventNum overflowing)) = ''2147483648''"
    by (simp add: overflowing_def entry_def float_fields)
  have "put_float (dijetMass overflowing) = ''inf''"
    by (simp add: overflowing_def entry_def float_fields)
  moreover have "''inf'' \<noteq> fixed_point_2 neg n" for neg n
  proof
    assume "''inf'' = fixed_point_2 neg n"
    with point_in_fixed_point_2 [of neg n] have "CHR ''.'' \<in> set ''inf''"
      by simp
    then show False
      by simp
  qed
  ultimately show "\<not> two_decimals (dijetMass overflowing) (put_float (dijetMass overflowing))"
    by (simp add: two_decimals_def)
  show "\<not> as_specified overflowing (csv_line cvttss2si overflowing)"
    unfolding as_specified_def line t by simp
qed

text \<open>
  Claim C2, amended. Let every entry of the merged table be exportable: its event index
  and parton identifiers are finite with a truncation that fits \<^verbatim>\<open>int\<close>, and its six float
  fields are finite. Then the lines of the exported text are the header
  \<^verbatim>\<open>Event,Mass,LeadPt,SubleadPt,DeltaPhi,DeltaEta,x1,x2,Parton1,Parton2\<close> followed by one line
  per entry in stored order, each line as specified: ten comma-separated fields, the
  first and the last two the truncated integers, the six between them decimal numerals
  with two fraction digits within half a hundredth of the field's value. The entry of the
  claim (\<open>entry_is_the_row_of_the_claim\<close>) is exported as
  \<^verbatim>\<open>7,123.46,50.10,30.20,3.14,0.01,0.00,0.50,21,-1\<close>.
\<close>

theorem export_as_specified:
  assumes "has_table w ''merged_tuple.root'' ''mergedNtuple'' t"
    and "\<forall>e\<in>set t. exportable e"
  shows "\<exists>w' csv. drawTuple u w = Inr w'
           \<and> files w' ''dijet_data.csv'' = Some (TextFile csv)
           \<and> lines_of csv =
               ''Event,Mass,LeadPt,SubleadPt,DeltaPhi,DeltaEta,x1,x2,Parton1,Parton2''
                 # map (csv_line u) t
           \<and> (\<forall>e\<in>set t. as_specified e (csv_line u e))
           \<and> csv_line u (entry 0x40E00000) = ''7,123.46,50.10,30.20,3.14,0.01,0.00,0.50,21,-1''"
proof -
  let ?csv = "write_entries u t (header @ [endl])"
  let ?w' = "w\<lparr>files := (files w)(''dijet_data.csv'' \<mapsto> TextFile ?csv),
                  cout := cout w @ [''Total number of entries: '' @ to_string (int (length t)),
                                    ''Data has been saved to dijet_data.csv'']\<rparr>"
  have "drawTuple u w = Inr ?w'"
    using assms(1) by (rule drawTuple_ok)
  moreover have "files ?w' ''dijet_data.csv'' = Some (TextFile ?csv)"
    by simp
  moreover have "lines_of ?csv =
      ''Event,Mass,LeadPt,SubleadPt,DeltaPhi,DeltaEta,x1,x2,Parton1,Parton2'' # map (csv_line u) t"
    unfolding lines_written by (simp add: header_def)
  moreover have "\<forall>e\<in>set t. as_specified e (csv_line u e)"
    using assms(2) by (simp add: as_specified_csv_line)
  ultimately show ?thesis
    using csv_line_entry_7 by blast
qed

theorem export_as_specified_witness:
  "has_table merged_directory ''merged_tuple.root'' ''mergedNtuple'' table0
   \<and> exportable (entry 0x40E00000) \<and> exportable (entry 0x41100000)
   \<and> (\<exists>w' csv. drawTuple cvttss2si merged_directory = Inr w'
         \<and> files w' ''dijet_data.csv'' = Some (TextFile csv)
         \<and> lines_of csv =
             [''Event,Mass,LeadPt,SubleadPt,DeltaPhi,DeltaEta,x1,x2,Parton1,Parton2'',
              ''7,123.46,50.10,30.20,3.14,0.01,0.00,0.50,21,-1'',
              ''9,123.46,50.10,30.20,3.14,0.01,0.00,0.50,21,-1'']
         \<and> as_specified (entry 0x40E00000) ''7,123.46,50.10,30.20,3.14,0.01,0.00,0.50,21,-1'')"
proof -
  have e: "\<forall>e\<in>set table0. exportable e"
    by (simp add: table0_def exportable_entry_7 exportable_entry_9)
  from export_as_specified [OF merged_directory_has_table e, of cvttss2si]
  have "\<exists>w' csv. drawTuple cvttss2si merged_directory = Inr w'
         \<and> files w' ''dijet_data.csv'' = Some (TextFile csv)
         \<and> lines_of csv =
             [''Event,Mass,LeadPt,SubleadPt,DeltaPhi,DeltaEta,x1,x2,Parton1,Parton2'',
              ''7,123.46,50.10,30.20,3.14,0.01,0.00,0.50,21,-1'',
              ''9,123.46,50.10,30.20,3.14,0.01,0.00,0.50,21,-1'']
         \<and> as_specified (entry 0x40E00000) ''7,123.46,50.10,30.20,3.14,0.01,0.00,0.50,21,-1''"
    by (auto simp: table0_def csv_line_entry_7 csv_line_entry_9)
  with merged_directory_has_table exportable_entry_7 exportable_entry_9 show ?thesis
    by (intro conjI)
qed


end
